theory Spec2Isabelle
  imports Main
begin

section \<open>Errors raised by the modelled code\<close>

text \<open>
  The JavaScript of \<^verbatim>\<open>clearurls.js\<close> has no \<^verbatim>\<open>try\<close>/\<^verbatim>\<open>catch\<close>; every exception
  raised by a built-in propagates to the caller. The model returns errors as values:
  \<^item> \<open>SyntaxError\<close>: \<^verbatim>\<open>new RegExp(p, f)\<close> on a pattern that ECMAScript rejects,
    or \<^verbatim>\<open>JSON.parse\<close> on a malformed text;
  \<^item> \<open>URIError\<close>: \<^verbatim>\<open>decodeURIComponent\<close> on a malformed escape sequence;
  \<^item> \<open>TypeError\<close>: a method call on \<^verbatim>\<open>undefined\<close>;
  \<^item> \<open>OutsideFragment\<close>: the pattern uses a construct of ECMAScript that this
    development does not cover (look-around, back-references, \<^verbatim>\<open>\b\<close>, hexadecimal
    and control escapes); nothing is stated about such patterns.
\<close>

datatype error = SyntaxError | URIError | TypeError | OutsideFragment

section \<open>Regular expressions: abstract syntax\<close>

text \<open>
  Strings are lists of 8-bit characters, read as the code units \<open>0..255\<close> of a
  JavaScript string.
\<close>

datatype class_atom =
    ClassChar char
  | ClassRange char char
  | ClassDigit bool
  | ClassWord bool
  | ClassSpace bool

datatype regex =
    Empty
  | Chr char
  | Dot
  | CharClass bool "class_atom list"
  | AssertStart
  | AssertEnd
  | Seq regex regex
  | Alt regex regex
  | Group nat regex
  | Repeat regex nat "nat option" bool

text \<open>
  \<open>CharClass neg as\<close> is \<^verbatim>\<open>[...]\<close> (\<open>neg\<close> for \<^verbatim>\<open>[^...]\<close>); the flag of
  \<open>ClassDigit\<close>, \<open>ClassWord\<close> and \<open>ClassSpace\<close> is \<open>True\<close> for the complemented
  escapes \<^verbatim>\<open>\D\<close>, \<^verbatim>\<open>\W\<close>, \<^verbatim>\<open>\S\<close>. \<open>Group n r\<close> is the \<open>n\<close>-th capturing
  group, counted by opening parenthesis. \<open>Repeat r lo hi greedy\<close> is a quantified
  atom: \<^verbatim>\<open>*\<close> is \<open>Repeat r 0 None True\<close>, \<^verbatim>\<open>+?\<close> is \<open>Repeat r 1 None False\<close>.
\<close>

section \<open>Parsing a pattern text\<close>

definition char_code :: "char \<Rightarrow> nat" where
  "char_code c = of_char c"

definition is_digit :: "char \<Rightarrow> bool" where
  "is_digit c = (48 \<le> char_code c \<and> char_code c \<le> 57)"

definition digit_val :: "char \<Rightarrow> nat" where
  "digit_val c = char_code c - 48"

fun class_escape :: "char \<Rightarrow> error + class_atom" where
  "class_escape e =
    (if e = CHR ''d'' then Inr (ClassDigit False)
     else if e = CHR ''D'' then Inr (ClassDigit True)
     else if e = CHR ''w'' then Inr (ClassWord False)
     else if e = CHR ''W'' then Inr (ClassWord True)
     else if e = CHR ''s'' then Inr (ClassSpace False)
     else if e = CHR ''S'' then Inr (ClassSpace True)
     else if e = CHR ''t'' then Inr (ClassChar (CHR 0x09))
     else if e = CHR ''n'' then Inr (ClassChar (CHR 0x0A))
     else if e = CHR ''v'' then Inr (ClassChar (CHR 0x0B))
     else if e = CHR ''f'' then Inr (ClassChar (CHR 0x0C))
     else if e = CHR ''r'' then Inr (ClassChar (CHR 0x0D))
     else if e \<in> set ''bBcxuk'' \<or> is_digit e then Inl OutsideFragment
     else Inr (ClassChar e))"

definition atom_escape :: "char \<Rightarrow> error + regex" where
  "atom_escape e =
    (case class_escape e of
       Inl err \<Rightarrow> Inl err
     | Inr (ClassChar c) \<Rightarrow> Inr (Chr c)
     | Inr a \<Rightarrow> Inr (CharClass False [a]))"

text \<open>
  The atoms of a character class, up to the closing bracket. Each atom carries a flag
  telling whether it is an unescaped \<^verbatim>\<open>-\<close>; the second component of the result is
  the number of characters read, the closing bracket included.
\<close>

fun class_atoms :: "string \<Rightarrow> nat \<Rightarrow> (class_atom \<times> bool) list
    \<Rightarrow> error + ((class_atom \<times> bool) list \<times> nat)" where
  "class_atoms [] k acc = Inl SyntaxError"
| "class_atoms (c # cs) k acc =
    (if c = CHR '']'' then Inr (rev acc, Suc k)
     else if c = CHR 0x5C then
       (case cs of
          [] \<Rightarrow> Inl SyntaxError
        | e # cs' \<Rightarrow>
            (case class_escape e of
               Inl err \<Rightarrow> Inl err
             | Inr a \<Rightarrow> class_atoms cs' (k + 2) ((a, False) # acc)))
     else class_atoms cs (Suc k) ((ClassChar c, c = CHR ''-'') # acc))"

fun class_ranges :: "(class_atom \<times> bool) list \<Rightarrow> error + class_atom list" where
  "class_ranges ((a, da) # (d, True) # (b, db) # rest) =
    (case (a, b) of
       (ClassChar lo, ClassChar hi) \<Rightarrow>
         (if char_code lo \<le> char_code hi then
            (case class_ranges rest of
               Inl err \<Rightarrow> Inl err
             | Inr as \<Rightarrow> Inr (ClassRange lo hi # as))
          else Inl SyntaxError)
     | _ \<Rightarrow> Inl OutsideFragment)"
| "class_ranges ((a, da) # rest) =
    (case class_ranges rest of
       Inl err \<Rightarrow> Inl err
     | Inr as \<Rightarrow> Inr (a # as))"
| "class_ranges [] = Inr []"

definition parse_class :: "string \<Rightarrow> error + (regex \<times> nat)" where
  "parse_class cs =
    (let neg = (case cs of c # _ \<Rightarrow> c = CHR ''^'' | [] \<Rightarrow> False);
         body = (if neg then tl cs else cs)
     in case class_atoms body (if neg then 1 else 0) [] of
          Inl err \<Rightarrow> Inl err
        | Inr (toks, k) \<Rightarrow>
            (case class_ranges toks of
               Inl err \<Rightarrow> Inl err
             | Inr as \<Rightarrow> Inr (CharClass neg as, k)))"

text \<open>
  A braced quantifier after the opening brace: \<^verbatim>\<open>n}\<close>, \<^verbatim>\<open>n,}\<close> or \<^verbatim>\<open>n,m}\<close>.
  The result is the bounds and the number of characters read; \<open>None\<close> when the text is
  not a quantifier, in which case ECMAScript (Annex B) reads the brace as a literal.
\<close>

fun read_number :: "string \<Rightarrow> nat \<Rightarrow> nat \<Rightarrow> nat \<times> nat" where
  "read_number [] v k = (v, k)"
| "read_number (c # cs) v k =
    (if is_digit c then read_number cs (10 * v + digit_val c) (Suc k) else (v, k))"

definition parse_braces :: "string \<Rightarrow> (nat \<times> nat option \<times> nat) option" where
  "parse_braces cs =
    (let (lo, k) = read_number cs 0 0; r1 = drop k cs
     in if k = 0 then None
        else (case r1 of
                [] \<Rightarrow> None
              | c # r2 \<Rightarrow>
                  if c = CHR ''}'' then Some (lo, Some lo, k + 1)
                  else if c = CHR '','' then
                    (let (hi, j) = read_number r2 0 0; r3 = drop j r2
                     in case r3 of
                          [] \<Rightarrow> None
                        | d # _ \<Rightarrow>
                            if d = CHR ''}'' then
                              Some (lo, if j = 0 then None else Some hi, k + j + 2)
                            else None)
                  else None))"

text \<open>
  The parser reads the pattern left to right with a stack of open groups. A frame holds
  the capture index of the group (\<open>None\<close> for \<^verbatim>\<open>(?:\<close> and for the top level), the
  alternatives already closed by \<^verbatim>\<open>|\<close> (latest first) and the terms of the alternative
  being read (latest first), each with a flag: may a quantifier follow it.
\<close>

type_synonym frame = "nat option \<times> regex list \<times> (regex \<times> bool) list"

fun mk_seq :: "regex list \<Rightarrow> regex" where
  "mk_seq [] = Empty"
| "mk_seq [r] = r"
| "mk_seq (r # rs) = Seq r (mk_seq rs)"

fun mk_alt :: "regex list \<Rightarrow> regex" where
  "mk_alt [] = Empty"
| "mk_alt [r] = r"
| "mk_alt (r # rs) = Alt r (mk_alt rs)"

definition close_alt :: "(regex \<times> bool) list \<Rightarrow> regex" where
  "close_alt cur = mk_seq (rev (map fst cur))"

definition close_frame :: "frame \<Rightarrow> regex" where
  "close_frame fr =
    (case fr of (cap, alts, cur) \<Rightarrow>
       (let body = mk_alt (rev (close_alt cur # alts))
        in case cap of Some n \<Rightarrow> Group n body | None \<Rightarrow> body))"

definition quantify :: "frame \<Rightarrow> nat \<Rightarrow> nat option \<Rightarrow> bool \<Rightarrow> error + frame" where
  "quantify fr lo hi greedy =
    (case fr of (cap, alts, cur) \<Rightarrow>
       (case cur of
          (r, True) # cur' \<Rightarrow> Inr (cap, alts, (Repeat r lo hi greedy, False) # cur')
        | _ \<Rightarrow> Inl SyntaxError))"

definition push_term :: "frame \<Rightarrow> regex \<Rightarrow> bool \<Rightarrow> frame" where
  "push_term fr r q = (case fr of (cap, alts, cur) \<Rightarrow> (cap, alts, (r, q) # cur))"

definition lazy_mark :: "string \<Rightarrow> bool" where
  "lazy_mark cs = (case cs of c # _ \<Rightarrow> c = CHR ''?'' | [] \<Rightarrow> False)"

function parse :: "string \<Rightarrow> frame \<Rightarrow> frame list \<Rightarrow> nat \<Rightarrow> error + regex" where
  "parse [] fr stk ng = (if stk = [] then Inr (close_frame fr) else Inl SyntaxError)"
| "parse (c # cs) fr stk ng =
    (if c = CHR ''('' then
       (if lazy_mark cs then
          (if take 2 cs = ''?:'' then parse (drop 2 cs) (None, [], []) (fr # stk) ng
           else Inl OutsideFragment)
        else parse cs (Some (Suc ng), [], []) (fr # stk) (Suc ng))
     else if c = CHR '')'' then
       (case stk of
          [] \<Rightarrow> Inl SyntaxError
        | up # stk' \<Rightarrow> parse cs (push_term up (close_frame fr) True) stk' ng)
     else if c = CHR ''|'' then
       (case fr of (cap, alts, cur) \<Rightarrow> parse cs (cap, close_alt cur # alts, []) stk ng)
     else if c = CHR ''*'' \<or> c = CHR ''+'' \<or> c = CHR ''?'' then
       (case quantify fr (if c = CHR ''+'' then 1 else 0)
               (if c = CHR ''?'' then Some 1 else None) (\<not> lazy_mark cs) of
          Inl err \<Rightarrow> Inl err
        | Inr fr' \<Rightarrow> parse (if lazy_mark cs then drop 1 cs else cs) fr' stk ng)
     else if c = CHR ''{'' then
       (case parse_braces cs of
          None \<Rightarrow> parse cs (push_term fr (Chr c) True) stk ng
        | Some (lo, hi, k) \<Rightarrow>
            (if (case hi of Some h \<Rightarrow> h < lo | None \<Rightarrow> False) then Inl SyntaxError
             else
               (case quantify fr lo hi (\<not> lazy_mark (drop k cs)) of
                  Inl err \<Rightarrow> Inl err
                | Inr fr' \<Rightarrow>
                    parse (if lazy_mark (drop k cs) then drop (Suc k) cs else drop k cs)
                      fr' stk ng)))
     else if c = CHR ''['' then
       (case parse_class cs of
          Inl err \<Rightarrow> Inl err
        | Inr (r, k) \<Rightarrow> parse (drop k cs) (push_term fr r True) stk ng)
     else if c = CHR ''.'' then parse cs (push_term fr Dot True) stk ng
     else if c = CHR ''^'' then parse cs (push_term fr AssertStart False) stk ng
     else if c = CHR ''$'' then parse cs (push_term fr AssertEnd False) stk ng
     else if c = CHR 0x5C then
       (case cs of
          [] \<Rightarrow> Inl SyntaxError
        | e # cs' \<Rightarrow>
            (case atom_escape e of
               Inl err \<Rightarrow> Inl err
             | Inr r \<Rightarrow> parse cs' (push_term fr r True) stk ng))
     else parse cs (push_term fr (Chr c) True) stk ng)"
  by pat_completeness auto
termination
  by (relation "measure (\<lambda>(s, fr, stk, ng). length s)") auto

section \<open>Matching\<close>

text \<open>
  \<open>canonicalize\<close> is the case folding of the \<^verbatim>\<open>i\<close> flag on code units below 256:
  the upper-case form, where it is again a single code unit below 256.
\<close>

definition canonicalize :: "char \<Rightarrow> char" where
  "canonicalize c =
    (let v = char_code c
     in if (97 \<le> v \<and> v \<le> 122) \<or> (224 \<le> v \<and> v \<le> 254 \<and> v \<noteq> 247)
        then char_of (v - 32) else c)"

definition uncanonicalize :: "char \<Rightarrow> char" where
  "uncanonicalize c =
    (let v = char_code c
     in if (65 \<le> v \<and> v \<le> 90) \<or> (192 \<le> v \<and> v \<le> 222 \<and> v \<noteq> 215)
        then char_of (v + 32) else c)"

definition char_eq :: "bool \<Rightarrow> char \<Rightarrow> char \<Rightarrow> bool" where
  "char_eq ic a b = (if ic then canonicalize a = canonicalize b else a = b)"

definition in_range :: "char \<Rightarrow> char \<Rightarrow> char \<Rightarrow> bool" where
  "in_range lo hi c = (char_code lo \<le> char_code c \<and> char_code c \<le> char_code hi)"

definition line_terminator :: "char \<Rightarrow> bool" where
  "line_terminator c = (char_code c = 10 \<or> char_code c = 13)"

definition is_word :: "char \<Rightarrow> bool" where
  "is_word c =
    (let v = char_code c
     in (97 \<le> v \<and> v \<le> 122) \<or> (65 \<le> v \<and> v \<le> 90) \<or> (48 \<le> v \<and> v \<le> 57) \<or> v = 95)"

definition is_space :: "char \<Rightarrow> bool" where
  "is_space c = (let v = char_code c in (9 \<le> v \<and> v \<le> 13) \<or> v = 32 \<or> v = 160)"

fun class_atom_has :: "bool \<Rightarrow> class_atom \<Rightarrow> char \<Rightarrow> bool" where
  "class_atom_has ic (ClassChar x) c = char_eq ic x c"
| "class_atom_has ic (ClassRange lo hi) c =
    (in_range lo hi c \<or>
     (ic \<and> (in_range lo hi (canonicalize c) \<or> in_range lo hi (uncanonicalize (canonicalize c)))))"
| "class_atom_has ic (ClassDigit neg) c = (is_digit c \<noteq> neg)"
| "class_atom_has ic (ClassWord neg) c = (is_word c \<noteq> neg)"
| "class_atom_has ic (ClassSpace neg) c = (is_space c \<noteq> neg)"

text \<open>
  A match state is the rest of the input and the captures made so far. The matcher
  returns the states in which a regex can end, in the order in which a backtracking
  matcher tries them: the head of the list is the match that ECMAScript reports.
\<close>

type_synonym caps = "(nat \<times> string) list"

definition set_cap :: "nat \<Rightarrow> string \<Rightarrow> caps \<Rightarrow> caps" where
  "set_cap k txt c = (k, txt) # filter (\<lambda>p. fst p \<noteq> k) c"

definition clear_caps :: "nat list \<Rightarrow> caps \<Rightarrow> caps" where
  "clear_caps ks c = filter (\<lambda>p. fst p \<notin> set ks) c"

fun groups_of :: "regex \<Rightarrow> nat list" where
  "groups_of (Seq a b) = groups_of a @ groups_of b"
| "groups_of (Alt a b) = groups_of a @ groups_of b"
| "groups_of (Group k r) = k # groups_of r"
| "groups_of (Repeat r lo hi greedy) = groups_of r"
| "groups_of r = []"

fun rsize :: "regex \<Rightarrow> nat" where
  "rsize (Seq a b) = Suc (rsize a + rsize b)"
| "rsize (Alt a b) = Suc (rsize a + rsize b)"
| "rsize (Group k r) = Suc (rsize r)"
| "rsize (Repeat r lo hi greedy) = Suc (rsize r)"
| "rsize r = 0"

fun rmin :: "regex \<Rightarrow> nat" where
  "rmin (Repeat r lo hi greedy) = lo"
| "rmin r = 0"

definition one_char :: "(char \<Rightarrow> bool) \<Rightarrow> string \<times> caps \<Rightarrow> (string \<times> caps) list" where
  "one_char P st =
    (case fst st of
       [] \<Rightarrow> []
     | x # xs \<Rightarrow> if P x then [(xs, snd st)] else [])"

text \<open>
  \<open>m ic n r (s, c)\<close>: \<open>ic\<close> is the \<^verbatim>\<open>i\<close> flag, \<open>n\<close> the length of the whole
  input (so that \<open>length s = n\<close> is index 0). In \<open>Repeat\<close>, ECMAScript's RepeatMatcher
  rejects an iteration of a \<open>lo = 0\<close> loop that ends where it started; since the
  matcher only ever moves forward (lemma \<open>m_suffix\<close> below), the test
  \<open>length s \<le> length t\<close> is that test.
\<close>

function m :: "bool \<Rightarrow> nat \<Rightarrow> regex \<Rightarrow> string \<times> caps \<Rightarrow> (string \<times> caps) list" where
  "m ic n Empty st = [st]"
| "m ic n (Chr x) st = one_char (char_eq ic x) st"
| "m ic n Dot st = one_char (\<lambda>x. \<not> line_terminator x) st"
| "m ic n (CharClass neg as) st =
    one_char (\<lambda>x. (\<exists>a \<in> set as. class_atom_has ic a x) \<noteq> neg) st"
| "m ic n AssertStart st = (if length (fst st) = n then [st] else [])"
| "m ic n AssertEnd st = (if fst st = [] then [st] else [])"
| "m ic n (Seq a b) st = concat (map (m ic n b) (m ic n a st))"
| "m ic n (Alt a b) st = m ic n a st @ m ic n b st"
| "m ic n (Group k r) st =
    map (\<lambda>e. (fst e, set_cap k (take (length (fst st) - length (fst e)) (fst st)) (snd e)))
      (m ic n r st)"
| "m ic n (Repeat r lo hi greedy) st =
    (if hi = Some 0 then [st]
     else
       (let iter = concat (map
              (\<lambda>e. if lo = 0 \<and> length (fst st) \<le> length (fst e) then []
                   else m ic n (Repeat r (lo - 1) (map_option (\<lambda>h. h - 1) hi) greedy) e)
              (m ic n r (fst st, clear_caps (groups_of r) (snd st))))
        in if lo \<noteq> 0 then iter else if greedy then iter @ [st] else st # iter))"
  by pat_completeness auto
termination
  by (relation "(\<lambda>(ic, n, r, st). rsize r) <*mlex*> (\<lambda>(ic, n, r, st). rmin r) <*mlex*>
        measure (\<lambda>(ic, n, r, st). length (fst st))")
     (auto simp: wf_mlex mlex_less mlex_leq)

text \<open>
  The equation for \<open>Repeat\<close> calls \<open>m\<close> on a \<open>Repeat\<close> again; it is taken out of
  the simplifier's rules and unfolded by hand where needed.
\<close>

declare m.simps(10) [simp del]

section \<open>The RegExp object and the string methods that take one\<close>

record regexp =
  ast :: regex
  global :: bool
  ignoreCase :: bool

text \<open>\<^verbatim>\<open>new RegExp(pattern, flags)\<close>; the code passes the flags \<^verbatim>\<open>"gi"\<close>, \<^verbatim>\<open>"i"\<close> or none.\<close>

definition RegExp :: "string \<Rightarrow> string \<Rightarrow> error + regexp" where
  "RegExp pattern flags =
    (case parse pattern (None, [], []) [] 0 of
       Inl err \<Rightarrow> Inl err
     | Inr r \<Rightarrow> Inr \<lparr>ast = r, global = CHR ''g'' \<in> set flags, ignoreCase = CHR ''i'' \<in> set flags\<rparr>)"

text \<open>
  The leftmost match at or after the start of \<open>s\<close>: the rest of the input where the
  match starts, the rest where it ends, and its captures.
\<close>

fun search :: "bool \<Rightarrow> nat \<Rightarrow> regex \<Rightarrow> string \<Rightarrow> (string \<times> string \<times> caps) option" where
  "search ic n r [] =
    (case m ic n r ([], []) of
       [] \<Rightarrow> None
     | e # _ \<Rightarrow> Some ([], fst e, snd e))"
| "search ic n r (x # xs) =
    (case m ic n r (x # xs, []) of
       [] \<Rightarrow> search ic n r xs
     | e # _ \<Rightarrow> Some (x # xs, fst e, snd e))"

datatype js_value = Undefined | Str string

text \<open>
  \<^verbatim>\<open>re.test(str)\<close> and \<^verbatim>\<open>re.exec(str)\<close> (the same as \<^verbatim>\<open>str.match(re)\<close>) for a
  regexp without the \<^verbatim>\<open>g\<close> flag, which is how the code calls them. The match array is
  the matched text and a function from group index to the captured text.
\<close>

definition test :: "regexp \<Rightarrow> string \<Rightarrow> bool" where
  "test re str = (search (ignoreCase re) (length str) (ast re) str \<noteq> None)"

definition exec :: "regexp \<Rightarrow> string \<Rightarrow> (nat \<Rightarrow> js_value) option" where
  "exec re str =
    (case search (ignoreCase re) (length str) (ast re) str of
       None \<Rightarrow> None
     | Some (s, t, c) \<Rightarrow>
         Some (\<lambda>k. if k = 0 then Str (take (length s - length t) s)
                    else (case map_of c k of None \<Rightarrow> Undefined | Some txt \<Rightarrow> Str txt)))"

text \<open>
  \<^verbatim>\<open>str.replace(re, rep)\<close> for a replacement text without \<^verbatim>\<open>$\<close>. With the \<^verbatim>\<open>g\<close> flag
  every match is replaced, scanning left to right: \<open>replace_all\<close> walks the input, \<open>k\<close>
  being the number of characters of the current match still to drop; after an empty
  match the scan moves on by one character.
\<close>

fun replace_all :: "bool \<Rightarrow> nat \<Rightarrow> regex \<Rightarrow> string \<Rightarrow> string \<Rightarrow> nat \<Rightarrow> string" where
  "replace_all ic n r rep [] k =
    (if k = 0 \<and> m ic n r ([], []) \<noteq> [] then rep else [])"
| "replace_all ic n r rep (x # xs) k =
    (if 0 < k then replace_all ic n r rep xs (k - 1)
     else
       (case m ic n r (x # xs, []) of
          [] \<Rightarrow> x # replace_all ic n r rep xs 0
        | e # _ \<Rightarrow>
            (let len = length (x # xs) - length (fst e)
             in if len = 0 then rep @ x # replace_all ic n r rep xs 0
                else rep @ replace_all ic n r rep xs (len - 1))))"

definition replace :: "string \<Rightarrow> regexp \<Rightarrow> string \<Rightarrow> string" where
  "replace str re rep =
    (if global re then replace_all (ignoreCase re) (length str) (ast re) rep str 0
     else
       (case search (ignoreCase re) (length str) (ast re) str of
          None \<Rightarrow> str
        | Some (s, t, c) \<Rightarrow> take (length str - length s) str @ rep @ t))"

text \<open>\<^verbatim>\<open>str.replace(pat, rep)\<close> for a string \<open>pat\<close>: the first occurrence only.\<close>

fun replace_str :: "string \<Rightarrow> string \<Rightarrow> string \<Rightarrow> string" where
  "replace_str [] pat rep = (if pat = [] then rep else [])"
| "replace_str (x # xs) pat rep =
    (if take (length pat) (x # xs) = pat then rep @ drop (length pat) (x # xs)
     else x # replace_str xs pat rep)"

section \<open>Objects used as ordered sets of pattern texts\<close>

text \<open>
  A provider keeps each collection of patterns in an object whose keys are the pattern
  texts and whose values are all \<^verbatim>\<open>true\<close>. The model keeps the keys, in the order in
  which they were created. \<^verbatim>\<open>Object.keys\<close> and \<^verbatim>\<open>for ... in\<close> enumerate the keys that
  are array indices first, in ascending numeric order, then the others in creation order
  (\<open>own_keys\<close>). \<open>obj_put\<close> creates a key. The assignment \<^verbatim>\<open>o[k] = true\<close>
  (\<open>obj_set\<close>) creates the key \<open>k\<close>, except for \<^verbatim>\<open>__proto__\<close>: that assignment calls
  the setter inherited from \<^verbatim>\<open>Object.prototype\<close>, which ignores a value that is not an
  object, and no key is created.
\<close>

type_synonym obj = "string list"

definition index_val :: "string \<Rightarrow> nat" where
  "index_val k = fst (read_number k 0 0)"

definition is_array_index :: "string \<Rightarrow> bool" where
  "is_array_index k =
    (k \<noteq> [] \<and> list_all is_digit k \<and> (k = ''0'' \<or> hd k \<noteq> CHR ''0'') \<and>
     index_val k < 4294967295)"

definition own_keys :: "obj \<Rightarrow> string list" where
  "own_keys ks =
    sort_key index_val (filter is_array_index ks) @ filter (\<lambda>k. \<not> is_array_index k) ks"

definition obj_put :: "obj \<Rightarrow> string \<Rightarrow> obj" where
  "obj_put ks k = (if k \<in> set ks then ks else ks @ [k])"

definition obj_set :: "obj \<Rightarrow> string \<Rightarrow> obj" where
  "obj_set ks k = (if k = ''__proto__'' then ks else obj_put ks k)"

definition obj_delete :: "obj \<Rightarrow> string \<Rightarrow> obj" where
  "obj_delete ks k = filter (\<lambda>x. x \<noteq> k) ks"

text \<open>
  \<^verbatim>\<open>Object.assign(target, source)\<close>: the changed target. The keys of the source are
  copied in enumeration order. The objects of a provider get their keys by assignment
  only, so the source holds no key \<^verbatim>\<open>__proto__\<close> and each of its keys becomes a key of
  the target.
\<close>

definition obj_assign :: "obj \<Rightarrow> obj \<Rightarrow> obj" where
  "obj_assign target source = foldl obj_put target (own_keys source)"

section \<open>Settings\<close>

text \<open>
  The fields of the global \<^verbatim>\<open>storage\<close> object that the code of \<^verbatim>\<open>clearurls.js\<close>
  reads during a request.
\<close>

record storage =
  globalStatus :: bool
  localHostsSkipping :: bool
  loggingStatus :: bool
  referralMarketing :: bool
  domainBlocking :: bool
  pingBlocking :: bool
  pingRequestTypes :: "string list"

section \<open>Provider\<close>

text \<open>
  The variables captured by the closures of \<^verbatim>\<open>Provider\<close>. \<open>urlPattern\<close> is
  \<^verbatim>\<open>undefined\<close> (\<open>None\<close>) until \<^verbatim>\<open>setURLPattern\<close> is called.
\<close>

record provider =
  name :: string
  urlPattern :: "regexp option"
  enabled_rules :: obj
  disabled_rules :: obj
  enabled_exceptions :: obj
  disabled_exceptions :: obj
  canceling :: bool
  enabled_redirections :: obj
  disabled_redirections :: obj
  active :: bool
  enabled_rawRules :: obj
  disabled_rawRules :: obj
  enabled_referralMarketing :: obj
  disabled_referralMarketing :: obj
  forceRedirection :: bool

definition siteBlockedAlert :: string where
  "siteBlockedAlert = ''javascript:void(0)''"

definition Provider :: "string \<Rightarrow> bool \<Rightarrow> bool \<Rightarrow> bool \<Rightarrow> provider" where
  "Provider nm completeProvider forceRedir isActive =
    \<lparr>name = nm, urlPattern = None,
     enabled_rules = (if completeProvider then [''.*''] else []),
     disabled_rules = [],
     enabled_exceptions = [], disabled_exceptions = [],
     canceling = completeProvider,
     enabled_redirections = [], disabled_redirections = [],
     active = isActive,
     enabled_rawRules = [], disabled_rawRules = [],
     enabled_referralMarketing = [], disabled_referralMarketing = [],
     forceRedirection = forceRedir\<rparr>"

definition shouldForceRedirect :: "provider \<Rightarrow> bool" where
  "shouldForceRedirect p = forceRedirection p"


definition setURLPattern :: "provider \<Rightarrow> string \<Rightarrow> error + provider" where
  "setURLPattern p urlPatterns =
    (case RegExp urlPatterns ''i'' of
       Inl err \<Rightarrow> Inl err
     | Inr re \<Rightarrow> Inr (p\<lparr>urlPattern := Some re\<rparr>))"

definition isCaneling :: "provider \<Rightarrow> bool" where
  "isCaneling p = canceling p"

text \<open>\<^verbatim>\<open>applyRule\<close> on a pair of objects: the changed pair (enabled, disabled).\<close>

definition applyRule :: "obj \<Rightarrow> obj \<Rightarrow> string \<Rightarrow> bool \<Rightarrow> obj \<times> obj" where
  "applyRule enabledRuleArray disabledRulesArray rule isActive =
    (if isActive then
       (obj_set enabledRuleArray rule,
        if rule \<in> set disabledRulesArray then obj_delete disabledRulesArray rule
        else disabledRulesArray)
     else
       (if rule \<in> set enabledRuleArray then obj_delete enabledRuleArray rule
        else enabledRuleArray,
        obj_set disabledRulesArray rule))"

text \<open>
  The text that \<^verbatim>\<open>addRule\<close> stores for a field name: in the source,
  \<^verbatim>\<open>"([\\/\\?#]|(&|&amp;))+(" + rule + "=[^&]*)"\<close>.
\<close>

definition rule_pattern :: "string \<Rightarrow> string" where
  "rule_pattern rule =
    ''(['' @ [CHR 0x5C] @ ''/'' @ [CHR 0x5C] @ ''?#]|(&|&amp;))+('' @ rule @ ''=[^&]*)''"

definition addRule :: "provider \<Rightarrow> string \<Rightarrow> bool \<Rightarrow> provider" where
  "addRule p rule isActive =
    (case applyRule (enabled_rules p) (disabled_rules p) (rule_pattern rule) isActive of
       (en, dis) \<Rightarrow> p\<lparr>enabled_rules := en, disabled_rules := dis\<rparr>)"

text \<open>
  \<^verbatim>\<open>getRules\<close> returns the keys and, since \<^verbatim>\<open>Object.assign\<close> writes into its first
  argument, the provider after the call.
\<close>

definition getRules :: "storage \<Rightarrow> provider \<Rightarrow> string list \<times> provider" where
  "getRules st p =
    (if \<not> referralMarketing st then
       (let merged = obj_assign (enabled_rules p) (enabled_referralMarketing p)
        in (own_keys merged, p\<lparr>enabled_rules := merged\<rparr>))
     else (own_keys (enabled_rules p), p))"

definition addRawRule :: "provider \<Rightarrow> string \<Rightarrow> bool \<Rightarrow> provider" where
  "addRawRule p rule isActive =
    (case applyRule (enabled_rawRules p) (disabled_rawRules p) rule isActive of
       (en, dis) \<Rightarrow> p\<lparr>enabled_rawRules := en, disabled_rawRules := dis\<rparr>)"

definition getRawRules :: "provider \<Rightarrow> string list" where
  "getRawRules p = own_keys (enabled_rawRules p)"

definition referral_pattern :: "string \<Rightarrow> string" where
  "referral_pattern rule =
    ''(['' @ [CHR 0x5C] @ ''/'' @ [CHR 0x5C] @ ''?#]|(&|&amp;))+('' @ rule @
    ''=[^'' @ [CHR 0x5C] @ ''/'' @ [CHR 0x5C] @ ''?&]*)''"

definition addReferralMarketing :: "provider \<Rightarrow> string \<Rightarrow> bool \<Rightarrow> provider" where
  "addReferralMarketing p rule isActive =
    (case applyRule (enabled_referralMarketing p) (disabled_referralMarketing p)
            (referral_pattern rule) isActive of
       (en, dis) \<Rightarrow> p\<lparr>enabled_referralMarketing := en, disabled_referralMarketing := dis\<rparr>)"

definition addException :: "provider \<Rightarrow> string \<Rightarrow> bool \<Rightarrow> provider" where
  "addException p exception isActive =
    (if isActive then
       p\<lparr>enabled_exceptions := obj_set (enabled_exceptions p) exception,
         disabled_exceptions :=
           (if exception \<in> set (disabled_exceptions p)
            then obj_delete (disabled_exceptions p) exception else disabled_exceptions p)\<rparr>
     else
       p\<lparr>disabled_exceptions := obj_set (disabled_exceptions p) exception,
         enabled_exceptions :=
           (if exception \<in> set (enabled_exceptions p)
            then obj_delete (enabled_exceptions p) exception else enabled_exceptions p)\<rparr>)"

text \<open>
  The loop of \<^verbatim>\<open>matchException\<close> over the enabled exceptions; \<open>result\<close> is the
  variable of that name. A pattern is compiled when the loop reaches it, so a pattern
  that does not compile raises only if no earlier exception matched.
\<close>

fun matchException_loop :: "string list \<Rightarrow> string \<Rightarrow> bool \<Rightarrow> error + bool" where
  "matchException_loop [] url result = Inr result"
| "matchException_loop (exception # rest) url result =
    (if result then Inr result
     else
       (case RegExp exception ''i'' of
          Inl err \<Rightarrow> Inl err
        | Inr exception_regex \<Rightarrow> matchException_loop rest url (test exception_regex url)))"

definition matchException :: "provider \<Rightarrow> string \<Rightarrow> error + bool" where
  "matchException p url =
    (if url = siteBlockedAlert then Inr True
     else matchException_loop (own_keys (enabled_exceptions p)) url False)"

definition matchURL :: "provider \<Rightarrow> string \<Rightarrow> error + bool" where
  "matchURL p url =
    (case urlPattern p of
       None \<Rightarrow> Inl TypeError
     | Some pat \<Rightarrow>
         (if test pat url then
            (case matchException p url of
               Inl err \<Rightarrow> Inl err
             | Inr b \<Rightarrow> Inr (\<not> b))
          else Inr False))"

definition addRedirection :: "provider \<Rightarrow> string \<Rightarrow> bool \<Rightarrow> provider" where
  "addRedirection p redirection isActive =
    (if isActive then
       p\<lparr>enabled_redirections := obj_set (enabled_redirections p) redirection,
         disabled_redirections :=
           (if redirection \<in> set (disabled_redirections p)
            then obj_delete (disabled_redirections p) redirection
            else disabled_redirections p)\<rparr>
     else
       p\<lparr>disabled_redirections := obj_set (disabled_redirections p) redirection,
         enabled_redirections :=
           (if redirection \<in> set (enabled_redirections p)
            then obj_delete (enabled_redirections p) redirection
            else enabled_redirections p)\<rparr>)"

text \<open>
  The loop of \<^verbatim>\<open>getRedirection\<close>. \<open>None\<close> is \<^verbatim>\<open>null\<close>; \<open>Some v\<close> is element 1
  of the match array, which is \<^verbatim>\<open>undefined\<close> when the pattern has no first group or
  the group took no part in the match. The empty pattern text is falsy and is skipped.
\<close>

fun getRedirection_loop :: "string list \<Rightarrow> string \<Rightarrow> error + js_value option" where
  "getRedirection_loop [] url = Inr None"
| "getRedirection_loop (redirection # rest) url =
    (case RegExp redirection ''i'' of
       Inl err \<Rightarrow> Inl err
     | Inr re1 \<Rightarrow>
         (if exec re1 url \<noteq> None \<and> redirection \<noteq> [] then
            (case RegExp redirection ''i'' of
               Inl err \<Rightarrow> Inl err
             | Inr re2 \<Rightarrow>
                 (case exec re2 url of
                    None \<Rightarrow> Inl TypeError
                  | Some arr \<Rightarrow> Inr (Some (arr 1))))
          else getRedirection_loop rest url))"

definition getRedirection :: "provider \<Rightarrow> string \<Rightarrow> error + js_value option" where
  "getRedirection p url = getRedirection_loop (own_keys (enabled_redirections p)) url"

section \<open>Helpers defined outside the two source files\<close>

text \<open>
  \<^verbatim>\<open>clearurls.js\<close> calls helpers whose definitions are in other files of the
  extension. The functions below take them as a parameter \<open>T\<close>, so that what is proved
  of \<^verbatim>\<open>removeFieldsFormURL\<close> and \<^verbatim>\<open>clearUrl\<close> holds for every definition of the
  helpers. \<open>checkLocalURL\<close> and \<open>decodeURL\<close> may raise (they parse and decode
  their argument); the others are taken to return normally.
\<close>

record tools =
  checkLocalURL :: "string \<Rightarrow> error + bool"
  existsFragments :: "string \<Rightarrow> bool"
  existsFields :: "string \<Rightarrow> bool"
  extractFileds :: "string \<Rightarrow> string list"
  extractFragments :: "string \<Rightarrow> string list"
  rmEmpty :: "string list \<Rightarrow> string list"
  decodeURL :: "js_value \<Rightarrow> error + string"
  countFields :: "string \<Rightarrow> nat"
  getURL :: "string \<Rightarrow> string"
  encodeURIComponent :: "string \<Rightarrow> string"

section \<open>Effects on collaborators\<close>

text \<open>
  The calls that a request makes to the activity log, the badge, the counters and the
  browser are returned as a list of events, in the order of the calls. The third
  argument of \<^verbatim>\<open>pushToLog\<close> is a pattern text or a message obtained from
  \<^verbatim>\<open>translate\<close>.
\<close>

datatype log_rule = RuleText string | Translate string

datatype event =
    PushToLog string string log_rule
  | IncreaseBadged bool
  | IncreaseGlobalURLCounter nat
  | TabsUpdate nat string

section \<open>removeFieldsFormURL\<close>

text \<open>
  The object returned by \<^verbatim>\<open>removeFieldsFormURL\<close>. The source returns
  \<^verbatim>\<open>{redirect: true, url}\<close> or \<^verbatim>\<open>{changes, url, cancel}\<close>; a property that is
  absent reads as \<^verbatim>\<open>undefined\<close>, which the caller tests as false, hence \<open>False\<close>
  here.
\<close>

record cleaning_result =
  changes :: bool
  url :: string
  redirect :: bool
  cancel :: bool

text \<open>\<^verbatim>\<open>arr.join(sep)\<close>\<close>

fun join :: "string list \<Rightarrow> string \<Rightarrow> string" where
  "join [] sep = []"
| "join [x] sep = x"
| "join (x # xs) sep = x @ sep @ join xs sep"

text \<open>
  The \<^verbatim>\<open>forEach\<close> over the raw rules; the accumulator is the variables \<^verbatim>\<open>url\<close> and
  \<^verbatim>\<open>changes\<close> and the events so far.
\<close>

fun rawRules_forEach :: "storage \<Rightarrow> bool \<Rightarrow> string list \<Rightarrow> string \<times> bool \<times> event list
    \<Rightarrow> error + (string \<times> bool \<times> event list)" where
  "rawRules_forEach st quiet [] acc = Inr acc"
| "rawRules_forEach st quiet (rawRule # rest) acc =
    (case acc of (u, chg, ev) \<Rightarrow>
       (case RegExp rawRule ''gi'' of
          Inl err \<Rightarrow> Inl err
        | Inr re \<Rightarrow>
            (let beforeReplace = u; u' = replace u re []
             in if beforeReplace \<noteq> u' then
                  rawRules_forEach st quiet rest
                    (u', True,
                     ev @ (if loggingStatus st \<and> \<not> quiet
                           then [PushToLog beforeReplace u' (RuleText rawRule)] else [])
                        @ [IncreaseBadged quiet])
                else rawRules_forEach st quiet rest (u', chg, ev))))"

text \<open>The variable \<^verbatim>\<open>domain\<close> after the two assignments that follow the raw rules.\<close>

definition extract_domain :: "tools \<Rightarrow> string \<Rightarrow> error + string" where
  "extract_domain T u =
    (case (if existsFragments T u then
             (case RegExp ''#.*'' ''i'' of
                Inl err \<Rightarrow> Inl err
              | Inr re \<Rightarrow> Inr (replace u re []))
           else Inr []) of
       Inl err \<Rightarrow> Inl err
     | Inr domain \<Rightarrow>
         (if existsFields T u then
            (case RegExp (CHR 0x5C # ''?.*'') ''i'' of
               Inl err \<Rightarrow> Inl err
             | Inr re \<Rightarrow> Inr (replace u re []))
          else Inr domain))"

definition fields_of :: "tools \<Rightarrow> string \<Rightarrow> string" where
  "fields_of T u =
    (if existsFields T u then ''?'' @ join (rmEmpty T (extractFileds T u)) ''&'' else [])"

definition fragments_of :: "tools \<Rightarrow> string \<Rightarrow> string" where
  "fragments_of T u =
    (if existsFragments T u then ''#'' @ join (rmEmpty T (extractFragments T u)) ''&''
     else [])"

text \<open>The text that the field-rule loop logs for a pair of field and fragment texts.\<close>

definition log_url :: "string \<Rightarrow> string \<Rightarrow> string \<Rightarrow> string" where
  "log_url domain flds fragments =
    domain
    @ (if flds \<noteq> [] then ''?'' @ replace_str (replace_str flds ''?&'' ''?'') ''?'' []
       else [])
    @ (if fragments \<noteq> []
       then ''#'' @ replace_str (replace_str fragments ''#&'' ''#'') ''#'' [] else [])"

text \<open>
  The \<^verbatim>\<open>forEach\<close> over the field rules; the accumulator is the variables
  \<^verbatim>\<open>fields\<close>, \<^verbatim>\<open>fragments\<close> and \<^verbatim>\<open>changes\<close> and the events so far.
\<close>

fun rules_forEach :: "storage \<Rightarrow> bool \<Rightarrow> string \<Rightarrow> string list
    \<Rightarrow> string \<times> string \<times> bool \<times> event list
    \<Rightarrow> error + (string \<times> string \<times> bool \<times> event list)" where
  "rules_forEach st quiet domain [] acc = Inr acc"
| "rules_forEach st quiet domain (rule # rest) acc =
    (case acc of (flds, fragments, chg, ev) \<Rightarrow>
       (case RegExp rule ''gi'' of
          Inl err \<Rightarrow> Inl err
        | Inr re \<Rightarrow>
            (let beforeReplace = flds;
                 beforeReplaceFragments = fragments;
                 flds' = replace flds re [];
                 fragments' = replace fragments re []
             in if beforeReplace \<noteq> flds' \<or> beforeReplaceFragments \<noteq> fragments' then
                  rules_forEach st quiet domain rest
                    (flds', fragments', True,
                     ev @ (if loggingStatus st \<and> \<not> quiet
                           then [PushToLog (log_url domain beforeReplace beforeReplaceFragments)
                                   (log_url domain flds' fragments') (RuleText rule)]
                           else [])
                        @ [IncreaseBadged quiet])
                else rules_forEach st quiet domain rest (flds', fragments', chg, ev))))"

text \<open>The reassembly of \<^verbatim>\<open>finalURL\<close> and the two substitutions that follow it.\<close>

definition reassemble :: "string \<Rightarrow> string \<Rightarrow> string \<Rightarrow> error + string" where
  "reassemble domain flds fragments =
    (let finalURL = domain
           @ (if flds \<noteq> [] then ''?'' @ replace_str flds ''?'' [] else [])
           @ (if fragments \<noteq> [] then ''#'' @ replace_str fragments ''#'' [] else [])
     in case RegExp (CHR 0x5C # ''?&'') [] of
          Inl err \<Rightarrow> Inl err
        | Inr re1 \<Rightarrow>
            (case RegExp ''#&'' [] of
               Inl err \<Rightarrow> Inl err
             | Inr re2 \<Rightarrow> Inr (replace (replace finalURL re1 ''?'') re2 ''#'')))"

text \<open>
  Steps 5 to 8 of \<^verbatim>\<open>removeFieldsFormURL\<close>, reached when no redirection was found:
  \<open>u\<close> and \<open>chg\<close> are \<^verbatim>\<open>url\<close> and \<^verbatim>\<open>changes\<close> after the raw rules.
\<close>

definition clean_fields :: "tools \<Rightarrow> storage \<Rightarrow> provider \<Rightarrow> string list \<Rightarrow> string \<Rightarrow> bool
    \<Rightarrow> string \<Rightarrow> string \<Rightarrow> bool \<Rightarrow> event list \<Rightarrow> error + (cleaning_result \<times> event list)" where
  "clean_fields T st p rules pureUrl quiet domain u chg ev =
    (let flds = fields_of T u; fragments = fragments_of T u
     in case (if flds \<noteq> [] \<or> fragments \<noteq> [] then
                (case rules_forEach st quiet domain rules (flds, fragments, chg, ev) of
                   Inl err \<Rightarrow> Inl err
                 | Inr (flds', fragments', chg', ev') \<Rightarrow>
                     (case reassemble domain flds' fragments' of
                        Inl err \<Rightarrow> Inl err
                      | Inr u' \<Rightarrow> Inr (u', chg', ev')))
              else Inr (u, chg, ev)) of
          Inl err \<Rightarrow> Inl err
        | Inr (u2, chg2, ev2) \<Rightarrow>
            (if isCaneling p \<and> domainBlocking st then
               Inr (\<lparr>changes = chg2, url = u2, redirect = False, cancel = True\<rparr>,
                    ev2 @ (if \<not> quiet
                           then [PushToLog pureUrl pureUrl (Translate ''log_domain_blocked'')]
                           else [])
                        @ [IncreaseBadged quiet])
             else Inr (\<lparr>changes = chg2, url = u2, redirect = False, cancel = False\<rparr>, ev2)))"

text \<open>
  \<^verbatim>\<open>removeFieldsFormURL(provider, pureUrl, quiet)\<close>: the returned object, the provider
  after the call (\<^verbatim>\<open>getRules\<close> may have changed it) and the events.
\<close>

definition removeFieldsFormURL :: "tools \<Rightarrow> storage \<Rightarrow> provider \<Rightarrow> string \<Rightarrow> bool
    \<Rightarrow> error + (cleaning_result \<times> provider \<times> event list)" where
  "removeFieldsFormURL T st p pureUrl quiet =
    (case getRules st p of (rules, p') \<Rightarrow>
       (let rawRules = getRawRules p'
        in case (if localHostsSkipping st then checkLocalURL T pureUrl else Inr False) of
             Inl err \<Rightarrow> Inl err
           | Inr True \<Rightarrow>
               Inr (\<lparr>changes = False, url = pureUrl, redirect = False, cancel = False\<rparr>, p', [])
           | Inr False \<Rightarrow>
               (case rawRules_forEach st quiet rawRules (pureUrl, False, []) of
                  Inl err \<Rightarrow> Inl err
                | Inr (u, chg, ev) \<Rightarrow>
                    (case extract_domain T u of
                       Inl err \<Rightarrow> Inl err
                     | Inr domain \<Rightarrow>
                         (case getRedirection p' u of
                            Inl err \<Rightarrow> Inl err
                          | Inr (Some re) \<Rightarrow>
                              (case decodeURL T re of
                                 Inl err \<Rightarrow> Inl err
                               | Inr target \<Rightarrow>
                                   Inr (\<lparr>changes = False, url = target, redirect = True,
                                         cancel = False\<rparr>,
                                        p',
                                        ev @ (if \<not> quiet
                                              then [PushToLog pureUrl target
                                                      (Translate ''log_redirect'')]
                                              else [])))
                          | Inr None \<Rightarrow>
                              (case clean_fields T st p' rules pureUrl quiet domain u chg ev of
                                 Inl err \<Rightarrow> Inl err
                               | Inr (res, ev') \<Rightarrow> Inr (res, p', ev')))))))"

section \<open>clearUrl\<close>

record request =
  req_url :: string
  req_type :: string
  req_tabId :: nat

text \<open>
  The value returned to the browser: \<^verbatim>\<open>{}\<close>, \<^verbatim>\<open>{redirectUrl: u}\<close> or
  \<^verbatim>\<open>{cancel: true}\<close>.
\<close>

datatype action = PassThrough | RedirectUrl string | Cancel

text \<open>
  The \<^verbatim>\<open>for\<close> loop of \<^verbatim>\<open>clearUrl\<close> over the global array \<^verbatim>\<open>providers\<close>:
  \<open>seen\<close> holds the providers already visited (as the calls left them), \<open>result\<close>
  is the variable of that name, which keeps its value when a provider does not match.
\<close>

fun providers_loop :: "tools \<Rightarrow> storage \<Rightarrow> request \<Rightarrow> provider list \<Rightarrow> provider list
    \<Rightarrow> cleaning_result \<Rightarrow> event list \<Rightarrow> error + (action \<times> provider list \<times> event list)" where
  "providers_loop T st rq seen [] result ev = Inr (PassThrough, seen, ev)"
| "providers_loop T st rq seen (p # ps) result ev =
    (case matchURL p (req_url rq) of
       Inl err \<Rightarrow> Inl err
     | Inr mt \<Rightarrow>
         (case (if mt then removeFieldsFormURL T st p (req_url rq) False
                else Inr (result, p, [])) of
            Inl err \<Rightarrow> Inl err
          | Inr (result', p', ev1) \<Rightarrow>
              (if redirect result' then
                 (if shouldForceRedirect p' \<and> req_type rq = ''main_frame'' then
                    Inr (Cancel, seen @ p' # ps,
                         ev @ ev1 @ [TabsUpdate (req_tabId rq) (url result')])
                  else Inr (RedirectUrl (url result'), seen @ p' # ps, ev @ ev1))
               else if cancel result' then
                 (if req_type rq = ''main_frame'' then
                    Inr (Cancel, seen @ p' # ps,
                         ev @ ev1 @
                         [TabsUpdate (req_tabId rq)
                            (getURL T (''html/siteBlockedAlert.html?source='' @
                               encodeURIComponent T (req_url rq)))])
                  else Inr (RedirectUrl siteBlockedAlert, seen @ p' # ps, ev @ ev1))
               else if changes result' then
                 Inr (RedirectUrl (url result'), seen @ p' # ps, ev @ ev1)
               else providers_loop T st rq (seen @ [p']) ps result' (ev @ ev1))))"

text \<open>
  \<^verbatim>\<open>clearUrl(request)\<close>, given the global array \<^verbatim>\<open>providers\<close>: the action, the
  array after the call and the events.
\<close>

definition clearUrl :: "tools \<Rightarrow> storage \<Rightarrow> provider list \<Rightarrow> request
    \<Rightarrow> error + (action \<times> provider list \<times> event list)" where
  "clearUrl T st prvs rq =
    (let URLbeforeReplaceCount = countFields T (req_url rq);
         ev = [IncreaseGlobalURLCounter URLbeforeReplaceCount]
     in if globalStatus st then
          (if pingBlocking st \<and> req_type rq \<in> set (pingRequestTypes st) then
             Inr (Cancel, prvs,
                  ev @ [PushToLog (req_url rq) (req_url rq) (Translate ''log_ping_blocked''),
                        IncreaseBadged False])
           else providers_loop T st rq [] prvs
                  \<lparr>changes = False, url = [], redirect = False, cancel = False\<rparr> ev)
        else Inr (PassThrough, prvs, ev))"

definition isDataURL :: "request \<Rightarrow> bool" where
  "isDataURL requestDetails = (take 4 (req_url requestDetails) = ''data'')"

definition promise :: "tools \<Rightarrow> storage \<Rightarrow> provider list \<Rightarrow> request
    \<Rightarrow> error + (action \<times> provider list \<times> event list)" where
  "promise T st prvs requestDetails =
    (if isDataURL requestDetails then Inr (PassThrough, prvs, [])
     else clearUrl T st prvs requestDetails)"

section \<open>An instance of the helpers\<close>

text \<open>
  The theorems below hold for every \<open>T\<close>. To run the model on concrete requests, the
  following instance gives each helper the meaning that the specification gives it.
\<close>

text \<open>
  Modelled from the spec: \<^verbatim>\<open>existsFields\<close> is not in the source files; the spec says
  "if a query string exists", read as: the URL has a \<^verbatim>\<open>?\<close>.
\<close>

definition spec_existsFields :: "string \<Rightarrow> bool" where
  "spec_existsFields u = (CHR ''?'' \<in> set u)"

text \<open>
  Modelled from the spec: \<^verbatim>\<open>existsFragments\<close> is not in the source files; the spec says
  "same for the fragment", read as: the URL has a \<^verbatim>\<open>#\<close>.
\<close>

definition spec_existsFragments :: "string \<Rightarrow> bool" where
  "spec_existsFragments u = (CHR ''#'' \<in> set u)"

text \<open>
  Modelled from the spec: the splitting done by \<^verbatim>\<open>extractFileds\<close> and
  \<^verbatim>\<open>extractFragments\<close>, which are not in the source files: "split it into an ordered
  sequence of name[=value] tokens on \<^verbatim>\<open>&\<close>/HTML-escaped \<^verbatim>\<open>&\<close>". \<open>cur\<close> is the
  token being read, latest character first.
\<close>

fun split_amp :: "string \<Rightarrow> string \<Rightarrow> string list" where
  "split_amp [] cur = [rev cur]"
| "split_amp (c # cs) cur =
    (if c = CHR ''&'' then
       (if take 4 cs = ''amp;'' then rev cur # split_amp (drop 4 cs) []
        else rev cur # split_amp cs [])
     else split_amp cs (c # cur))"

text \<open>
  Modelled from the spec: \<^verbatim>\<open>extractFileds\<close> is not in the source files; the query
  string is the text after the first \<^verbatim>\<open>?\<close>, up to a following \<^verbatim>\<open>#\<close>.
\<close>

definition spec_extractFileds :: "string \<Rightarrow> string list" where
  "spec_extractFileds u =
    (if spec_existsFields u
     then split_amp (takeWhile (\<lambda>c. c \<noteq> CHR ''#'') (tl (dropWhile (\<lambda>c. c \<noteq> CHR ''?'') u))) []
     else [])"

text \<open>
  Modelled from the spec: \<^verbatim>\<open>extractFragments\<close> is not in the source files; the
  fragment is the text after the first \<^verbatim>\<open>#\<close>.
\<close>

definition spec_extractFragments :: "string \<Rightarrow> string list" where
  "spec_extractFragments u =
    (if spec_existsFragments u
     then split_amp (tl (dropWhile (\<lambda>c. c \<noteq> CHR ''#'') u)) []
     else [])"

text \<open>
  Modelled from the spec: \<^verbatim>\<open>rmEmpty\<close> is not in the source files and the spec does
  not describe it; by its name, it drops the empty tokens.
\<close>

definition spec_rmEmpty :: "string list \<Rightarrow> string list" where
  "spec_rmEmpty xs = filter (\<lambda>x. x \<noteq> []) xs"

definition hex_val :: "char \<Rightarrow> nat option" where
  "hex_val c =
    (let v = char_code c
     in if 48 \<le> v \<and> v \<le> 57 then Some (v - 48)
        else if 65 \<le> v \<and> v \<le> 70 then Some (v - 55)
        else if 97 \<le> v \<and> v \<le> 102 then Some (v - 87)
        else None)"

fun percent_decode :: "string \<Rightarrow> string" where
  "percent_decode (c # h1 # h2 # cs) =
    (case (c = CHR ''%'', hex_val h1, hex_val h2) of
       (True, Some a, Some b) \<Rightarrow> char_of (16 * a + b) # percent_decode cs
     | _ \<Rightarrow> c # percent_decode (h1 # h2 # cs))"
| "percent_decode cs = cs"

text \<open>
  Modelled from the spec: \<^verbatim>\<open>decodeURL\<close> is not in the source files; the spec says
  "URL-decode it". Each \<^verbatim>\<open>%XY\<close> becomes the character of that code, every other
  character stays; the text of \<^verbatim>\<open>undefined\<close> is \<^verbatim>\<open>"undefined"\<close>.
\<close>

definition spec_decodeURL :: "js_value \<Rightarrow> error + string" where
  "spec_decodeURL v =
    Inr (percent_decode (case v of Str s \<Rightarrow> s | Undefined \<Rightarrow> ''undefined''))"

text \<open>
  Modelled from the spec: \<^verbatim>\<open>checkLocalURL\<close> is not in the source files; the spec says
  "the URL resolves to a loopback/private/internal host". The host is the text between
  \<^verbatim>\<open>://\<close> and the next \<^verbatim>\<open>/\<close>, \<^verbatim>\<open>:\<close>, \<^verbatim>\<open>?\<close> or \<^verbatim>\<open>#\<close>; it is local when it is
  \<^verbatim>\<open>localhost\<close> or starts with \<^verbatim>\<open>127.\<close>, \<^verbatim>\<open>10.\<close> or \<^verbatim>\<open>192.168.\<close>.
\<close>

fun after_scheme :: "string \<Rightarrow> string" where
  "after_scheme (a # b # c # cs) =
    (if [a, b, c] = ''://'' then cs else after_scheme (b # c # cs))"
| "after_scheme cs = []"

definition host_of :: "string \<Rightarrow> string" where
  "host_of u = takeWhile (\<lambda>c. c \<notin> set ''/:?#'') (after_scheme u)"

definition spec_checkLocalURL :: "string \<Rightarrow> error + bool" where
  "spec_checkLocalURL u =
    (let h = host_of u
     in Inr (h = ''localhost'' \<or> take 4 h = ''127.'' \<or> take 3 h = ''10.'' \<or>
             take 8 h = ''192.168.''))"

text \<open>
  Modelled from the spec: \<^verbatim>\<open>countFields\<close> is not in the source files; the spec says
  "count and report URL field volume", read as the number of query tokens.
\<close>

definition spec_countFields :: "string \<Rightarrow> nat" where
  "spec_countFields u = length (spec_rmEmpty (spec_extractFileds u))"

text \<open>
  The two browser functions used for the block notice are kept symbolic: the page locator
  prefixes the extension's base address, and the encoder is the identity on the
  characters that need no escape (the only ones in the examples below).
\<close>

text \<open>
  The built-in \<^verbatim>\<open>encodeURIComponent\<close> on a text of 8-bit code units: letters, digits
  and \<^verbatim>\<open>- _ . ! ~ * ' ( )\<close> are kept; every other code unit is replaced by the
  percent-escapes of the bytes of its UTF-8 encoding, one byte below 128 and two from
  128 on, with upper-case hexadecimal digits.
\<close>

definition hex_digit :: "nat \<Rightarrow> char" where
  "hex_digit n = (if n < 10 then char_of (48 + n) else char_of (55 + n))"

definition percent_byte :: "nat \<Rightarrow> string" where
  "percent_byte b = [CHR ''%'', hex_digit (b div 16), hex_digit (b mod 16)]"

definition uri_unreserved :: "char \<Rightarrow> bool" where
  "uri_unreserved c =
    (let v = char_code c
     in (97 \<le> v \<and> v \<le> 122) \<or> (65 \<le> v \<and> v \<le> 90) \<or> (48 \<le> v \<and> v \<le> 57)
        \<or> c \<in> set ''-_.!~*()'' \<or> c = CHR 0x27)"

definition encode_unit :: "char \<Rightarrow> string" where
  "encode_unit c =
    (let v = char_code c
     in if uri_unreserved c then [c]
        else if v < 128 then percent_byte v
        else percent_byte (192 + v div 64) @ percent_byte (128 + v mod 64))"

definition js_encodeURIComponent :: "string \<Rightarrow> string" where
  "js_encodeURIComponent s = concat (map encode_unit s)"

definition spec_tools :: tools where
  "spec_tools =
    \<lparr>checkLocalURL = spec_checkLocalURL,
     existsFragments = spec_existsFragments,
     existsFields = spec_existsFields,
     extractFileds = spec_extractFileds,
     extractFragments = spec_extractFragments,
     rmEmpty = spec_rmEmpty,
     decodeURL = spec_decodeURL,
     countFields = spec_countFields,
     getURL = (\<lambda>path. ''moz-extension://clearurls/'' @ path),
     encodeURIComponent = js_encodeURIComponent\<rparr>"

section \<open>Building the providers from the rule-set document\<close>

text \<open>
  One provider entry of the rule-set document; every member is optional. The document
  itself is the object \<^verbatim>\<open>data.providers\<close>, as an association list in creation order.
\<close>

record provider_data =
  d_completeProvider :: "bool option"
  d_forceRedirection :: "bool option"
  d_urlPattern :: "string option"
  d_rules :: "string list option"
  d_rawRules :: "string list option"
  d_referralMarketing :: "string list option"
  d_exceptions :: "string list option"
  d_redirections :: "string list option"

type_synonym ruleset = "(string \<times> provider_data) list"

text \<open>
  The value of \<^verbatim>\<open>storage.ClearURLsData\<close>: nothing, a text (a downloaded body that
  has not been parsed) or a parsed document.
\<close>

datatype js_data = NoData | Text string | Document ruleset

text \<open>
  The globals \<^verbatim>\<open>dataHash\<close> and \<^verbatim>\<open>localDataHash\<close> hold \<^verbatim>\<open>undefined\<close>,
  \<^verbatim>\<open>false\<close> or a text.
\<close>

datatype hash_value = HashUndefined | HashFalse | HashText string

text \<open>
  The globals and the fields of \<^verbatim>\<open>storage\<close> that the update pipeline reads and
  writes. \<open>requests\<close> lists the addresses passed to \<^verbatim>\<open>fetch\<close>, \<open>saved\<close> the
  arguments of \<^verbatim>\<open>saveOnDisk\<close>, both in call order. \<open>hashStatus\<close> is the last
  argument of \<^verbatim>\<open>storeHashStatus\<close>, or what was loaded at start.
\<close>

record globals =
  providers :: "provider list"
  prvKeys :: "string list"
  dataHash :: hash_value
  localDataHash :: hash_value
  ClearURLsData :: js_data
  storage_dataHash :: hash_value
  hashStatus :: "nat option"
  hashURL :: string
  ruleURL :: string
  requests :: "string list"
  saved :: "string list list"

text \<open>
  Modelled from the spec: \<^verbatim>\<open>getOrDefault\<close> is not in the source files; the spec says
  "all rule arrays optional (default empty)": the member if present, else the default.
\<close>

definition getOrDefault :: "'a option \<Rightarrow> 'a \<Rightarrow> 'a" where
  "getOrDefault member dflt = (case member of None \<Rightarrow> dflt | Some v \<Rightarrow> v)"

text \<open>
  Modelled from the spec: \<^verbatim>\<open>storeHashStatus\<close> is not in the source files; it records
  the status of the update. The spec names the statuses: the code passes 1 where the spec
  says \<^verbatim>\<open>up_to_date\<close>, 2 for \<^verbatim>\<open>updated\<close> and 3 for \<^verbatim>\<open>hash_mismatch\<close>; no call
  passes a code for \<^verbatim>\<open>unavailable\<close>.
\<close>

datatype update_status = Up_to_date | Updated | Hash_mismatch | Unavailable

definition storeHashStatus :: "nat \<Rightarrow> globals \<Rightarrow> globals" where
  "storeHashStatus status_code g = g\<lparr>hashStatus := Some status_code\<rparr>"


definition saveOnDisk :: "string list \<Rightarrow> globals \<Rightarrow> globals" where
  "saveOnDisk keys g = g\<lparr>saved := saved g @ [keys]\<rparr>"

text \<open>
  \<^verbatim>\<open>getKeys(obj)\<close> pushes the keys of the document on \<^verbatim>\<open>prvKeys\<close>. A text has no
  member \<^verbatim>\<open>providers\<close>, and \<^verbatim>\<open>for ... in\<close> over \<^verbatim>\<open>undefined\<close> does nothing;
  reading \<^verbatim>\<open>providers\<close> from \<^verbatim>\<open>undefined\<close> raises.
\<close>

definition getKeys :: "globals \<Rightarrow> globals \<times> error option" where
  "getKeys g =
    (case ClearURLsData g of
       NoData \<Rightarrow> (g, Some TypeError)
     | Text t \<Rightarrow> (g, None)
     | Document d \<Rightarrow> (g\<lparr>prvKeys := prvKeys g @ own_keys (map fst d)\<rparr>, None))"

text \<open>
  The body of the loop of \<^verbatim>\<open>createProviders\<close> for the index \<open>i\<close> and the key
  \<open>prvKeys[i]\<close>: a new provider is pushed, and the calls that follow go to
  \<^verbatim>\<open>providers[i]\<close>.
\<close>

definition fill_provider :: "provider_data \<Rightarrow> provider \<Rightarrow> error + provider" where
  "fill_provider d p0 =
    (case setURLPattern p0 (getOrDefault (d_urlPattern d) []) of
       Inl err \<Rightarrow> Inl err
     | Inr p1 \<Rightarrow>
         (let p2 = foldl (\<lambda>q r. addRule q r True) p1 (getOrDefault (d_rules d) []);
              p3 = foldl (\<lambda>q r. addRawRule q r True) p2 (getOrDefault (d_rawRules d) []);
              p4 = foldl (\<lambda>q r. addReferralMarketing q r True) p3
                     (getOrDefault (d_referralMarketing d) []);
              p5 = foldl (\<lambda>q e. addException q e True) p4 (getOrDefault (d_exceptions d) []);
              p6 = foldl (\<lambda>q r. addRedirection q r True) p5
                     (getOrDefault (d_redirections d) [])
          in Inr p6))"

fun createProviders_loop :: "ruleset \<Rightarrow> string list \<Rightarrow> nat \<Rightarrow> provider list
    \<Rightarrow> provider list \<times> error option" where
  "createProviders_loop d [] i prvs = (prvs, None)"
| "createProviders_loop d (key # keys) i prvs =
    (case map_of d key of
       None \<Rightarrow> (prvs, Some TypeError)
     | Some pd \<Rightarrow>
         (let prvs1 = prvs @ [Provider key (getOrDefault (d_completeProvider pd) False)
                                (getOrDefault (d_forceRedirection pd) False) True]
          in if i < length prvs1 then
               (case fill_provider pd (prvs1 ! i) of
                  Inl err \<Rightarrow> (prvs1, Some err)
                | Inr q \<Rightarrow> createProviders_loop d keys (Suc i) (prvs1[i := q]))
             else (prvs1, Some TypeError)))"

definition createProviders :: "globals \<Rightarrow> globals \<times> error option" where
  "createProviders g =
    (case ClearURLsData g of
       Document d \<Rightarrow>
         (case createProviders_loop d (prvKeys g) 0 (providers g) of
            (prvs, err) \<Rightarrow> (g\<lparr>providers := prvs\<rparr>, err))
     | _ \<Rightarrow> (g, if prvKeys g = [] then None else Some TypeError))"

definition toObject :: "globals \<Rightarrow> globals \<times> error option" where
  "toObject g =
    (case getKeys g of
       (g1, Some err) \<Rightarrow> (g1, Some err)
     | (g1, None) \<Rightarrow> createProviders g1)"

section \<open>The update pipeline\<close>

text \<open>
  What a \<^verbatim>\<open>fetch\<close> yields: a rejected promise, or a response with its \<^verbatim>\<open>ok\<close> flag
  and body. The pipeline is run with the outcome of each of its two fetches given; the
  callbacks of a rejected promise never run.
\<close>

datatype fetch_result = Rejected | Response bool string

text \<open>\<^verbatim>\<open>$.trim\<close>: white space removed at both ends; the text of a non-text value.\<close>

definition trim :: "string \<Rightarrow> string" where
  "trim s = rev (dropWhile is_space (rev (dropWhile is_space s)))"

definition trim_value :: "hash_value \<Rightarrow> string" where
  "trim_value v =
    (case v of HashUndefined \<Rightarrow> [] | HashFalse \<Rightarrow> ''false'' | HashText s \<Rightarrow> trim s)"

text \<open>
  \<open>sha256\<close> is \<^verbatim>\<open>$.sha256\<close> and \<open>JSON_parse\<close> is \<^verbatim>\<open>JSON.parse\<close> on a text
  (\<open>None\<close> when it raises), both parameters. \<^verbatim>\<open>JSON.parse\<close> of a value that is not
  a text parses the text of that value, which is not JSON.
\<close>

definition parse_data :: "(string \<Rightarrow> ruleset option) \<Rightarrow> js_data \<Rightarrow> error + js_data" where
  "parse_data JSON_parse v =
    (case v of
       Text t \<Rightarrow> (case JSON_parse t of None \<Rightarrow> Inl SyntaxError | Some d \<Rightarrow> Inr (Document d))
     | _ \<Rightarrow> Inl SyntaxError)"

text \<open>
  The last three statements of \<^verbatim>\<open>checkResponse\<close>, which follow the comparison of
  the hashes: parse \<^verbatim>\<open>storage.ClearURLsData\<close>, build the providers, save.
\<close>

definition parse_and_build :: "(string \<Rightarrow> ruleset option) \<Rightarrow> globals
    \<Rightarrow> globals \<times> error option" where
  "parse_and_build JSON_parse g =
    (case parse_data JSON_parse (ClearURLsData g) of
       Inl err \<Rightarrow> (g, Some err)
     | Inr parsed \<Rightarrow>
         (case toObject (g\<lparr>ClearURLsData := parsed\<rparr>) of
            (g', Some err) \<Rightarrow> (g', Some err)
          | (g', None) \<Rightarrow>
              (saveOnDisk [''ClearURLsData'', ''dataHash'', ''hashStatus''] g', None)))"

definition fetchFromURL :: "(string \<Rightarrow> string) \<Rightarrow> (string \<Rightarrow> ruleset option) \<Rightarrow> globals
    \<Rightarrow> fetch_result \<Rightarrow> globals \<times> error option" where
  "fetchFromURL sha256 JSON_parse g rules_response =
    (let g1 = g\<lparr>requests := requests g @ [ruleURL g]\<rparr>
     in case rules_response of
          Rejected \<Rightarrow> (g1, None)
        | Response ok responseText \<Rightarrow>
            (if ok \<and> trim responseText \<noteq> [] then
               (let downloadedFileHash = sha256 responseText
                in if trim downloadedFileHash = trim_value (dataHash g1) then
                     parse_and_build JSON_parse
                       (storeHashStatus 2
                          (g1\<lparr>ClearURLsData := Text responseText,
                              storage_dataHash := HashText downloadedFileHash\<rparr>))
                   else parse_and_build JSON_parse (storeHashStatus 3 g1))
             else (g1, None)))"

definition getHash :: "(string \<Rightarrow> string) \<Rightarrow> (string \<Rightarrow> ruleset option) \<Rightarrow> globals
    \<Rightarrow> fetch_result \<Rightarrow> fetch_result \<Rightarrow> globals \<times> error option" where
  "getHash sha256 JSON_parse g hash_response rules_response =
    (let g1 = g\<lparr>requests := requests g @ [hashURL g]\<rparr>
     in case hash_response of
          Rejected \<Rightarrow> (g1, None)
        | Response ok responseTextHash \<Rightarrow>
            (if ok \<and> trim responseTextHash \<noteq> [] then
               (let g2 = g1\<lparr>dataHash := HashText responseTextHash\<rparr>
                in if trim_value (dataHash g2) \<noteq> trim_value (localDataHash g2) then
                     fetchFromURL sha256 JSON_parse g2 rules_response
                   else
                     (case toObject g2 of
                        (g3, Some err) \<Rightarrow> (g3, Some err)
                      | (g3, None) \<Rightarrow>
                          (saveOnDisk [''hashStatus''] (storeHashStatus 1 g3), None)))
             else (g1\<lparr>dataHash := HashFalse\<rparr>, None)))"

section \<open>Notions used in the statements\<close>

text \<open>\<open>compiles pat\<close>: \<^verbatim>\<open>new RegExp(pat, flags)\<close> returns a regexp (for any flags).\<close>

definition compiles :: "string \<Rightarrow> bool" where
  "compiles pat = (case parse pat (None, [], []) [] 0 of Inl err \<Rightarrow> False | Inr r \<Rightarrow> True)"

text \<open>\<open>has_match pat flags s\<close>: the pattern compiles and matches somewhere in \<open>s\<close>.\<close>

definition has_match :: "string \<Rightarrow> string \<Rightarrow> string \<Rightarrow> bool" where
  "has_match pat flags s =
    (case RegExp pat flags of
       Inl err \<Rightarrow> False
     | Inr re \<Rightarrow> search (ignoreCase re) (length s) (ast re) s \<noteq> None)"

text \<open>
  A provider is well formed when its URL pattern has been set and each of its enabled
  pattern texts compiles.
\<close>

definition well_formed :: "provider \<Rightarrow> bool" where
  "well_formed p =
    (urlPattern p \<noteq> None \<and> list_all compiles (enabled_rules p)
     \<and> list_all compiles (enabled_referralMarketing p)
     \<and> list_all compiles (enabled_rawRules p)
     \<and> list_all compiles (enabled_exceptions p)
     \<and> list_all compiles (enabled_redirections p))"

text \<open>The two helpers that may raise do not.\<close>

definition total_tools :: "tools \<Rightarrow> bool" where
  "total_tools T =
    ((\<forall>u. \<exists>b. checkLocalURL T u = Inr b) \<and> (\<forall>v. \<exists>s. decodeURL T v = Inr s))"


text \<open>
  The texts that a regex can match, read off its syntax (the two assertions match the
  empty text wherever they hold). The matcher only returns such texts (lemma
  \<open>m_sound\<close>).
\<close>

inductive lang :: "bool \<Rightarrow> regex \<Rightarrow> string \<Rightarrow> bool" for ic :: bool where
  lang_Empty: "lang ic Empty []"
| lang_Chr: "char_eq ic x c \<Longrightarrow> lang ic (Chr x) [c]"
| lang_Dot: "\<not> line_terminator c \<Longrightarrow> lang ic Dot [c]"
| lang_CharClass:
    "(\<exists>a \<in> set as. class_atom_has ic a c) \<noteq> neg \<Longrightarrow> lang ic (CharClass neg as) [c]"
| lang_AssertStart: "lang ic AssertStart []"
| lang_AssertEnd: "lang ic AssertEnd []"
| lang_Seq: "lang ic a u \<Longrightarrow> lang ic b v \<Longrightarrow> lang ic (Seq a b) (u @ v)"
| lang_AltL: "lang ic a u \<Longrightarrow> lang ic (Alt a b) u"
| lang_AltR: "lang ic b u \<Longrightarrow> lang ic (Alt a b) u"
| lang_Group: "lang ic r u \<Longrightarrow> lang ic (Group k r) u"
| lang_RepeatStop: "lo = 0 \<or> hi = Some 0 \<Longrightarrow> lang ic (Repeat r lo hi greedy) []"
| lang_RepeatStep: "hi \<noteq> Some 0 \<Longrightarrow> lang ic r u \<Longrightarrow>
     lang ic (Repeat r (lo - 1) (map_option (\<lambda>h. h - 1) hi) greedy) v \<Longrightarrow>
     lang ic (Repeat r lo hi greedy) (u @ v)"

text \<open>A field name without any of the characters that are operators in a pattern.\<close>

definition plain_name :: "string \<Rightarrow> bool" where
  "plain_name r = list_all (\<lambda>c. c \<notin> set ''()|*+?{[.^$'' \<and> c \<noteq> CHR 0x5C) r"

text \<open>
  The separators of \<^verbatim>\<open>addRule\<close>: \<^verbatim>\<open>/\<close>, \<^verbatim>\<open>?\<close>, \<^verbatim>\<open>#\<close>, \<^verbatim>\<open>&\<close> and
  \<^verbatim>\<open>&amp;\<close>, the last in any letter case since the pattern is compiled with the
  \<^verbatim>\<open>i\<close> flag; \<open>separators w\<close>: \<open>w\<close> is one or more separators in a row.
\<close>

definition is_separator :: "string \<Rightarrow> bool" where
  "is_separator s =
    (s = ''/'' \<or> s = ''?'' \<or> s = ''#'' \<or> s = ''&'' \<or> list_all2 (char_eq True) ''&amp;'' s)"

definition separators :: "string \<Rightarrow> bool" where
  "separators w = (\<exists>ss. ss \<noteq> [] \<and> list_all is_separator ss \<and> w = concat ss)"

definition separator_ast :: regex where
  "separator_ast =
    Group 1 (Alt (CharClass False [ClassChar CHR ''/'', ClassChar CHR ''?'', ClassChar CHR ''#''])
      (Group 2 (Alt (Chr CHR ''&'')
         (Seq (Chr CHR ''&'') (Seq (Chr CHR ''a'') (Seq (Chr CHR ''m'')
            (Seq (Chr CHR ''p'') (Chr CHR '';''))))))))"

text \<open>The object returned by a call of \<^verbatim>\<open>removeFieldsFormURL\<close>, without the effects.\<close>

definition outcome :: "error + (cleaning_result \<times> provider \<times> event list)
    \<Rightarrow> error + cleaning_result" where
  "outcome r = (case r of Inl err \<Rightarrow> Inl err | Inr (res, p, ev) \<Rightarrow> Inr res)"





section \<open>Concrete settings, documents and providers\<close>

definition example_storage :: storage where
  "example_storage =
    \<lparr>globalStatus = True, localHostsSkipping = True, loggingStatus = True,
     referralMarketing = False, domainBlocking = True, pingBlocking = True,
     pingRequestTypes = [''ping'', ''beacon'']\<rparr>"

definition no_data :: provider_data where
  "no_data =
    \<lparr>d_completeProvider = None, d_forceRedirection = None, d_urlPattern = None,
     d_rules = None, d_rawRules = None, d_referralMarketing = None,
     d_exceptions = None, d_redirections = None\<rparr>"

definition example_ruleset :: ruleset where
  "example_ruleset =
    [(''shop'',
      no_data\<lparr>d_urlPattern := Some ''shop'',
              d_rules := Some [''utm'', ''ref''],
              d_rawRules := Some [''trk''],
              d_referralMarketing := Some [''tag''],
              d_exceptions := Some [''shop/keep''],
              d_redirections := Some [''[?&]to=([^&]*)'']\<rparr>),
     (''dotted'',
      no_data\<lparr>d_urlPattern := Some ''dotted'',
              d_rules := Some [''a.b'']\<rparr>),
     (''broken'',
      no_data\<lparr>d_urlPattern := Some ''broken'',
              d_rawRules := Some [''('']\<rparr>)]"

text \<open>
  The example providers are built as \<^verbatim>\<open>createProviders\<close> builds the provider of one
  key of a document: \<^verbatim>\<open>new Provider\<close>, then the calls that fill it.
\<close>

definition build_provider :: "ruleset \<Rightarrow> string \<Rightarrow> error + provider" where
  "build_provider d key =
    (case map_of d key of
       None \<Rightarrow> Inl TypeError
     | Some pd \<Rightarrow>
         fill_provider pd
           (Provider key (getOrDefault (d_completeProvider pd) False)
              (getOrDefault (d_forceRedirection pd) False) True))"


definition example_provider :: "string \<Rightarrow> provider" where
  "example_provider key =
    (case build_provider example_ruleset key of
       Inl err \<Rightarrow> Provider key False False True
     | Inr p \<Rightarrow> p)"

definition example_request :: "string \<Rightarrow> request" where
  "example_request u = \<lparr>req_url = u, req_type = ''main_frame'', req_tabId = 1\<rparr>"

text \<open>
  Globals at start, with a cached document and the hash \<^verbatim>\<open>abc\<close> stored with it. The
  hash function and the JSON parser of the examples are stand-ins: the first appends
  \<^verbatim>\<open>!\<close> to its argument, the second knows one text.
\<close>

definition example_globals :: globals where
  "example_globals =
    \<lparr>providers = [], prvKeys = [], dataHash = HashUndefined,
     localDataHash = HashText ''abc'',
     ClearURLsData = Document example_ruleset,
     storage_dataHash = HashText ''abc'',
     hashStatus = None,
     hashURL = ''https://r.example/hash'',
     ruleURL = ''https://r.example/rules'',
     requests = [], saved = []\<rparr>"

definition example_sha256 :: "string \<Rightarrow> string" where
  "example_sha256 s = s @ ''!''"

definition example_JSON_parse :: "string \<Rightarrow> ruleset option" where
  "example_JSON_parse t = (if t = ''{...}'' then Some example_ruleset else None)"

section \<open>Lemmas\<close>

lemma set_own_keys: "set (own_keys ks) = set ks"
  by (auto simp: own_keys_def)

lemma set_foldl_obj_put: "set (foldl obj_put t ks) = set t \<union> set ks"
  by (induction ks arbitrary: t) (auto simp: obj_put_def)

lemma set_obj_assign: "set (obj_assign t s) = set t \<union> set s"
  by (simp add: obj_assign_def set_foldl_obj_put set_own_keys)

lemma compiles_RegExp: "compiles pat \<Longrightarrow> \<exists>re. RegExp pat f = Inr re"
  by (auto simp: compiles_def RegExp_def split: sum.splits)

lemma RegExp_compiles: "RegExp pat f = Inr re \<Longrightarrow> compiles pat"
  by (auto simp: compiles_def RegExp_def split: sum.splits)

lemma matchException_loop_result:
  "list_all compiles es \<Longrightarrow>
   matchException_loop es u r = Inr (r \<or> (\<exists>e \<in> set es. has_match e ''i'' u))"
proof (induction es arbitrary: r)
  case Nil
  then show ?case by simp
next
  case (Cons e es)
  from Cons.prems have "compiles e" and rest: "list_all compiles es" by simp_all
  then obtain re where re: "RegExp e ''i'' = Inr re" using compiles_RegExp by blast
  show ?case
  proof (cases r)
    case True
    then show ?thesis by simp
  next
    case False
    then show ?thesis using re Cons.IH [OF rest, of "test re u"]
      by (auto simp: has_match_def test_def)
  qed
qed

lemma providers_loop_no_match:
  "\<forall>p \<in> set ps. matchURL p (req_url rq) = Inr False \<Longrightarrow>
   \<not> redirect r \<Longrightarrow> \<not> cancel r \<Longrightarrow> \<not> changes r \<Longrightarrow>
   providers_loop T st rq seen ps r ev = Inr (PassThrough, seen @ ps, ev)"
  by (induction ps arbitrary: seen) auto

lemma RegExp_fragment:
  "RegExp ''#.*'' ''i'' =
     Inr \<lparr>ast = Seq (Chr CHR ''#'') (Repeat Dot 0 None True), global = False, ignoreCase = True\<rparr>"
  by code_simp

lemma RegExp_query:
  "RegExp (CHR 0x5C # ''?.*'') ''i'' =
     Inr \<lparr>ast = Seq (Chr CHR ''?'') (Repeat Dot 0 None True), global = False, ignoreCase = True\<rparr>"
  by code_simp

lemma RegExp_query_amp:
  "RegExp (CHR 0x5C # ''?&'') [] =
     Inr \<lparr>ast = Seq (Chr CHR ''?'') (Chr CHR ''&''), global = False, ignoreCase = False\<rparr>"
  by code_simp

lemma RegExp_hash_amp:
  "RegExp ''#&'' [] =
     Inr \<lparr>ast = Seq (Chr CHR ''#'') (Chr CHR ''&''), global = False, ignoreCase = False\<rparr>"
  by code_simp

lemma extract_domain_returns: "\<exists>d. extract_domain T u = Inr d"
  by (simp add: extract_domain_def RegExp_fragment RegExp_query)

lemma reassemble_returns: "\<exists>v. reassemble d f g = Inr v"
  by (simp add: reassemble_def RegExp_query_amp RegExp_hash_amp Let_def)

lemma getRedirection_getRules: "getRedirection (snd (getRules st p)) u = getRedirection p u"
  by (simp add: getRedirection_def getRules_def Let_def)

lemma getRawRules_getRules: "getRawRules (snd (getRules st p)) = getRawRules p"
  by (simp add: getRawRules_def getRules_def Let_def)


















lemma rawRules_forEach_returns:
  "list_all compiles rs \<Longrightarrow> \<exists>r. rawRules_forEach st q rs acc = Inr r"
proof (induction rs arbitrary: acc)
  case Nil
  then show ?case by (cases acc) auto
next
  case (Cons a rs)
  then obtain re where re: "RegExp a ''gi'' = Inr re" using compiles_RegExp by fastforce
  obtain x y z where acc: "acc = (x, y, z)" by (cases acc) auto
  from Cons.prems have "list_all compiles rs" by simp
  from Cons.IH [OF this] re show ?case by (simp add: acc Let_def)
qed

lemma rules_forEach_returns:
  "list_all compiles rs \<Longrightarrow> \<exists>r. rules_forEach st q d rs acc = Inr r"
proof (induction rs arbitrary: acc)
  case Nil
  then show ?case by (cases acc) auto
next
  case (Cons a rs)
  then obtain re where re: "RegExp a ''gi'' = Inr re" using compiles_RegExp by fastforce
  obtain x y z w where acc: "acc = (x, y, z, w)" by (cases acc) auto
  from Cons.prems have "list_all compiles rs" by simp
  from Cons.IH [OF this] re show ?case by (simp add: acc Let_def)
qed



lemma getRedirection_loop_returns:
  "list_all compiles rs \<Longrightarrow> \<exists>r. getRedirection_loop rs u = Inr r"
proof (induction rs)
  case Nil
  then show ?case by simp
next
  case (Cons a rs)
  then obtain re where "RegExp a ''i'' = Inr re" using compiles_RegExp by fastforce
  with Cons show ?case by auto
qed

lemma list_all_own_keys: "list_all P (own_keys ks) = list_all P ks"
  by (simp add: list_all_iff set_own_keys)

lemma getRules_compile:
  "well_formed p \<Longrightarrow> list_all compiles (fst (getRules st p))"
  by (auto simp: well_formed_def getRules_def Let_def list_all_iff set_own_keys set_obj_assign)

lemma well_formed_getRules: "well_formed p \<Longrightarrow> well_formed (snd (getRules st p))"
  by (auto simp: well_formed_def getRules_def Let_def list_all_iff set_obj_assign)

lemma clean_fields_returns:
  "list_all compiles rules \<Longrightarrow> \<exists>r. clean_fields T st p rules pu q d u chg ev = Inr r"
proof -
  assume a: "list_all compiles rules"
  obtain r where r: "rules_forEach st q d rules (fields_of T u, fragments_of T u, chg, ev) = Inr r"
    using rules_forEach_returns [OF a] by blast
  obtain f g c e where rr: "r = (f, g, c, e)" by (cases r) auto
  obtain v where v: "reassemble d f g = Inr v" using reassemble_returns by blast
  show ?thesis using r rr v by (auto simp: clean_fields_def Let_def)
qed


lemma removeFieldsFormURL_returns:
  assumes "well_formed p" and "total_tools T"
  shows "\<exists>res ev. removeFieldsFormURL T st p u q = Inr (res, snd (getRules st p), ev)"
proof -
  obtain b where b: "checkLocalURL T u = Inr b" using assms(2) by (auto simp: total_tools_def)
  have "list_all compiles (getRawRules p)"
    using assms(1) by (simp add: getRawRules_def list_all_own_keys well_formed_def)
  then obtain u1 chg ev where raw: "rawRules_forEach st q (getRawRules p) (u, False, []) = Inr (u1, chg, ev)"
    using rawRules_forEach_returns [of "getRawRules p" st q "(u, False, [])"]
    by (metis prod_cases3)
  obtain d where d: "extract_domain T u1 = Inr d" using extract_domain_returns by blast
  have "list_all compiles (own_keys (enabled_redirections p))"
    using assms(1) by (simp add: list_all_own_keys well_formed_def)
  then obtain rd where rd: "getRedirection p u1 = Inr rd"
    using getRedirection_loop_returns by (auto simp: getRedirection_def)
  obtain cf where cf: "clean_fields T st (snd (getRules st p)) (fst (getRules st p)) u q d u1 chg ev = Inr cf"
    using clean_fields_returns [OF getRules_compile [OF assms(1)]] by blast
  have dec: "\<And>v. \<exists>s. decodeURL T v = Inr s" using assms(2) by (auto simp: total_tools_def)
  show ?thesis
  proof (cases rd)
    case None
    then show ?thesis using b raw d rd cf
      by (cases cf; cases b)
         (auto simp: removeFieldsFormURL_def Let_def case_prod_beta getRedirection_getRules
           getRawRules_getRules)
  next
    case (Some v)
    obtain s where "decodeURL T v = Inr s" using dec by blast
    then show ?thesis using b raw d rd Some
      by (cases b)
         (auto simp: removeFieldsFormURL_def Let_def case_prod_beta getRedirection_getRules
           getRawRules_getRules)
  qed
qed

lemma matchURL_returns:
  "well_formed p \<Longrightarrow> \<exists>b. matchURL p u = Inr b"
  using matchException_loop_result [of "own_keys (enabled_exceptions p)" u False]
  by (auto simp: well_formed_def matchURL_def matchException_def list_all_own_keys)

lemma providers_loop_returns:
  "list_all well_formed ps \<Longrightarrow> total_tools T \<Longrightarrow>
   \<exists>a prvs' ev'. providers_loop T st rq seen ps r ev = Inr (a, prvs', ev')"
proof (induction ps arbitrary: seen r ev)
  case Nil
  then show ?case by simp
next
  case (Cons p ps)
  from Cons.prems have wf: "well_formed p" and rest: "list_all well_formed ps" by simp_all
  obtain b where b: "matchURL p (req_url rq) = Inr b" using matchURL_returns [OF wf] by blast
  obtain res ev1 where rm: "removeFieldsFormURL T st p (req_url rq) False = Inr (res, snd (getRules st p), ev1)"
    using removeFieldsFormURL_returns [OF wf Cons.prems(2)] by blast
  show ?case
  proof (cases b)
    case True
    then show ?thesis
      using b rm Cons.IH [OF rest Cons.prems(2), of "seen @ [snd (getRules st p)]" res "ev @ ev1"]
      by auto
  next
    case False
    then show ?thesis
      using b Cons.IH [OF rest Cons.prems(2), of "seen @ [p]" r "ev"]
      by auto
  qed
qed

lemma one_char_sound:
  "e \<in> set (one_char P st) \<Longrightarrow> \<exists>c. fst st = c # fst e \<and> P c"
  by (cases st) (auto simp: one_char_def split: list.splits if_splits)

lemma m_sound:
  "e \<in> set (m ic n r st) \<Longrightarrow> \<exists>w. fst st = w @ fst e \<and> lang ic r w"
proof (induction ic n r st arbitrary: e rule: m.induct)
  case (1 ic n st)
  then show ?case by (auto intro: lang.intros)
next
  case (2 ic n x st)
  then obtain c where "fst st = c # fst e" "char_eq ic x c" using one_char_sound by fastforce
  then show ?case using lang_Chr [of ic x c] by (intro exI [of _ "[c]"]) simp
next
  case (3 ic n st)
  then obtain c where "fst st = c # fst e" "\<not> line_terminator c"
    using one_char_sound by fastforce
  then show ?case using lang_Dot [of c ic] by (intro exI [of _ "[c]"]) simp
next
  case (4 ic n neg as st)
  then obtain c where "fst st = c # fst e" "(\<exists>a \<in> set as. class_atom_has ic a c) \<noteq> neg"
    using one_char_sound [of e "\<lambda>x. (\<exists>a \<in> set as. class_atom_has ic a x) \<noteq> neg" st]
    by auto
  then show ?case using lang_CharClass [of as ic c neg] by (intro exI [of _ "[c]"]) simp
next
  case (5 ic n st)
  then show ?case by (auto intro: lang.intros split: if_splits)
next
  case (6 ic n st)
  then show ?case by (auto intro: lang.intros split: if_splits)
next
  case (7 ic n a b st)
  from "7.prems" obtain mid where mid: "mid \<in> set (m ic n a st)" and e: "e \<in> set (m ic n b mid)"
    by auto
  from "7.IH"(1) [OF mid] obtain u where u: "fst st = u @ fst mid" "lang ic a u" by blast
  from "7.IH"(2) [OF mid e] obtain v where v: "fst mid = v @ fst e" "lang ic b v" by blast
  show ?case using u v by (auto intro: lang.intros)
next
  case (8 ic n a b st)
  from "8.prems" consider "e \<in> set (m ic n a st)" | "e \<in> set (m ic n b st)" by auto
  then show ?case
  proof cases
    case 1
    from "8.IH"(1) [OF this] show ?thesis by (blast intro: lang_AltL)
  next
    case 2
    from "8.IH"(2) [OF this] show ?thesis by (blast intro: lang_AltR)
  qed
next
  case (9 ic n k r st)
  from "9.prems" obtain e' where e': "e' \<in> set (m ic n r st)" and "fst e = fst e'"
    by auto
  from "9.IH" [OF e'] \<open>fst e = fst e'\<close> show ?case by (auto intro: lang_Group)
next
  case (10 ic n r lo hi greedy st)
  show ?case
  proof (cases "hi = Some 0")
    case True
    then show ?thesis using "10.prems" by (subst (asm) m.simps(10)) (auto intro: lang.intros)
  next
    case False
    let ?inner = "m ic n r (fst st, clear_caps (groups_of r) (snd st))"
    let ?iter = "concat (map (\<lambda>e. if lo = 0 \<and> length (fst st) \<le> length (fst e) then []
                   else m ic n (Repeat r (lo - 1) (map_option (\<lambda>h. h - 1) hi) greedy) e) ?inner)"
    from "10.prems" False have "e \<in> set ?iter \<or> (lo = 0 \<and> e = st)"
      by (subst (asm) m.simps(10)) (auto simp: Let_def split: if_splits)
    then show ?thesis
    proof
      assume "lo = 0 \<and> e = st"
      then show ?thesis by (auto intro: lang.intros)
    next
      assume "e \<in> set ?iter"
      then obtain mid where mid: "mid \<in> set ?inner"
        and cond: "\<not> (lo = 0 \<and> length (fst st) \<le> length (fst mid))"
        and e: "e \<in> set (m ic n (Repeat r (lo - 1) (map_option (\<lambda>h. h - 1) hi) greedy) mid)"
        by (auto split: if_splits)
      from "10.IH"(1) [OF False mid] obtain u where u: "fst st = u @ fst mid" "lang ic r u"
        by auto
      from "10.IH"(2) [OF False mid cond e]
      obtain v where v: "fst mid = v @ fst e"
        "lang ic (Repeat r (lo - 1) (map_option (\<lambda>h. h - 1) hi) greedy) v" by blast
      show ?thesis using u v False by (auto intro: lang.intros)
    qed
  qed
qed

lemma search_sound:
  "search ic n r s = Some (s1, t, c) \<Longrightarrow> \<exists>pre w. s = pre @ s1 \<and> s1 = w @ t \<and> lang ic r w"
proof (induction s)
  case Nil
  show ?case
  proof (cases "m ic n r ([], [])")
    case Nil
    then show ?thesis using Nil.prems by simp
  next
    case (Cons e es)
    then have "e \<in> set (m ic n r ([], []))" "s1 = []" "t = fst e"
      using Nil.prems by auto
    then show ?thesis using m_sound [of e ic n r "([], [])"] by auto
  qed
next
  case (Cons x xs)
  show ?case
  proof (cases "m ic n r (x # xs, [])")
    case Nil
    then have "search ic n r xs = Some (s1, t, c)" using Cons.prems by simp
    from Cons.IH [OF this] show ?thesis by (metis append_Cons)
  next
    case (Cons e es)
    then have "e \<in> set (m ic n r (x # xs, []))" "s1 = x # xs" "t = fst e"
      using Cons.prems by auto
    then show ?thesis using m_sound [of e ic n r "(x # xs, [])"] by auto
  qed
qed

lemma parse_plain:
  "plain_name r \<Longrightarrow>
   parse (r @ rest) (cap, alts, cur) stk ng =
   parse rest (cap, alts, rev (map (\<lambda>c. (Chr c, True)) r) @ cur) stk ng"
proof (induction r arbitrary: cur)
  case Nil
  then show ?case by simp
next
  case (Cons c cs)
  from Cons.prems have c: "c \<notin> set ''()|*+?{[.^$''" "c \<noteq> CHR 0x5C" and cs: "plain_name cs"
    by (simp_all add: plain_name_def)
  have "parse ((c # cs) @ rest) (cap, alts, cur) stk ng
        = parse (cs @ rest) (cap, alts, (Chr c, True) # cur) stk ng"
    using c by (simp add: push_term_def)
  also have "\<dots> = parse rest (cap, alts, rev (map (\<lambda>c. (Chr c, True)) cs) @ (Chr c, True) # cur) stk ng"
    by (rule Cons.IH [OF cs])
  finally show ?case by simp
qed

lemma lazy_mark_plain:
  "plain_name r \<Longrightarrow> d \<noteq> CHR ''?'' \<Longrightarrow>
   (case r @ d # rest of [] \<Rightarrow> False | c # x \<Rightarrow> c = CHR ''?'') = False"
  by (cases r) (simp_all add: plain_name_def)

lemma rule_pattern_ast:
  assumes "plain_name r"
  shows "RegExp (rule_pattern r) ''gi'' =
    Inr \<lparr>ast = Seq (Repeat separator_ast 1 None True)
           (Group 3 (mk_seq (map Chr r @
              [Chr CHR ''='', Repeat (CharClass True [ClassChar CHR ''&'']) 0 None True]))),
         global = True, ignoreCase = True\<rparr>"
  using assms
  by (simp add: RegExp_def rule_pattern_def parse_plain separator_ast_def
      lazy_mark_def push_term_def quantify_def close_frame_def close_alt_def
      parse_class_def atom_escape_def is_digit_def char_code_def parse_braces_def rev_map comp_def lazy_mark_plain)

lemma char_code_inj: "char_code a = char_code b \<Longrightarrow> a = b"
  by (simp add: char_code_def)

lemma char_code_char_of: "n < 256 \<Longrightarrow> char_code (char_of n) = n"
  by (simp add: char_code_def)

lemma char_code_lt: "char_code c < 256"
  by (simp add: char_code_def)

lemma canonicalize_fixed:
  assumes "canonicalize x = x" and "uncanonicalize x = x"
  shows "char_eq ic x c = (c = x)"
proof -
  have "c = x" if "canonicalize x = canonicalize c"
  proof (rule char_code_inj)
    let ?v = "char_code c" and ?w = "char_code x"
    have lt: "?v < 256" "?w < 256" by (rule char_code_lt)+
    show "?v = ?w"
    proof (cases "(97 \<le> ?v \<and> ?v \<le> 122) \<or> (224 \<le> ?v \<and> ?v \<le> 254 \<and> ?v \<noteq> 247)")
      case False
      then have "canonicalize c = c" by (auto simp: canonicalize_def Let_def)
      then show ?thesis using that assms by simp
    next
      case True
      then have "canonicalize c = char_of (?v - 32)" by (auto simp: canonicalize_def Let_def)
      then have "x = char_of (?v - 32)" using that assms by simp
      then have w: "?w = ?v - 32" using lt by (simp add: char_code_char_of)
      then have "(65 \<le> ?w \<and> ?w \<le> 90) \<or> (192 \<le> ?w \<and> ?w \<le> 222 \<and> ?w \<noteq> 215)"
        using True by auto
      then have "uncanonicalize x = char_of (?w + 32)" by (auto simp: uncanonicalize_def Let_def)
      then have "char_code x = char_code (char_of (?w + 32) :: char)" using assms by simp
      then have "?w = ?w + 32" using w True lt by (simp add: char_code_char_of)
      then show ?thesis by simp
    qed
  qed
  then show ?thesis using assms by (auto simp: char_eq_def)
qed

inductive_cases lang_SeqE: "lang ic (Seq a b) w"

inductive_cases lang_AltE: "lang ic (Alt a b) w"

inductive_cases lang_GroupE: "lang ic (Group k r) w"

inductive_cases lang_ChrE: "lang ic (Chr x) w"

inductive_cases lang_CharClassE: "lang ic (CharClass neg as) w"

inductive_cases lang_RepeatE: "lang ic (Repeat r lo hi g) w"

lemma lang_Repeat_unbounded:
  "lang ic rr w \<Longrightarrow> rr = Repeat r lo None g \<Longrightarrow>
   \<exists>ws. lo \<le> length ws \<and> (\<forall>x \<in> set ws. lang ic r x) \<and> w = concat ws"
proof (induction rr w arbitrary: lo rule: lang.induct)
  case (lang_RepeatStop lo' hi r' greedy)
  then show ?case by (intro exI [of _ "[]"]) auto
next
  case (lang_RepeatStep hi r' u lo' greedy v)
  then have "\<exists>ws. lo - 1 \<le> length ws \<and> (\<forall>x \<in> set ws. lang ic r x) \<and> v = concat ws"
    by auto
  then obtain ws where "lo - 1 \<le> length ws" "\<forall>x \<in> set ws. lang ic r x" "v = concat ws"
    by blast
  then show ?case using lang_RepeatStep by (intro exI [of _ "u # ws"]) auto
qed simp_all

lemma lang_mk_seq_chars:
  "rest \<noteq> [] \<Longrightarrow> lang ic (mk_seq (map Chr r @ rest)) w \<Longrightarrow>
   \<exists>r' w'. w = r' @ w' \<and> list_all2 (char_eq ic) r r' \<and> lang ic (mk_seq rest) w'"
proof (induction r arbitrary: w)
  case Nil
  then show ?case by auto
next
  case (Cons c cs)
  from Cons.prems(1) obtain y ys where "map Chr cs @ rest = y # ys"
    by (cases "map Chr cs @ rest") auto
  then have "mk_seq (map Chr (c # cs) @ rest) = Seq (Chr c) (mk_seq (map Chr cs @ rest))"
    by simp
  with Cons.prems(2) obtain u v where w: "w = u @ v" and u: "lang ic (Chr c) u"
    and v: "lang ic (mk_seq (map Chr cs @ rest)) v"
    by (auto elim: lang_SeqE)
  from u obtain x where x: "u = [x]" "char_eq ic c x" by (auto elim: lang_ChrE)
  from Cons.IH [OF Cons.prems(1) v] obtain r' w' where
    "v = r' @ w'" "list_all2 (char_eq ic) cs r'" "lang ic (mk_seq rest) w'" by blast
  then show ?case using w x by (intro exI [of _ "x # r'"] exI [of _ w']) simp
qed

lemma char_eq_fixed:
  "char_eq ic (CHR ''/'') c = (c = CHR ''/'')"
  "char_eq ic (CHR ''?'') c = (c = CHR ''?'')"
  "char_eq ic (CHR ''#'') c = (c = CHR ''#'')"
  "char_eq ic (CHR ''&'') c = (c = CHR ''&'')"
  "char_eq ic (CHR ''='') c = (c = CHR ''='')"
  by (rule canonicalize_fixed; simp add: canonicalize_def uncanonicalize_def char_code_def)+

lemma lang_separator:
  assumes "lang True separator_ast x"
  shows "is_separator x"
proof -
  from assms consider
      (cls) "lang True (CharClass False [ClassChar CHR ''/'', ClassChar CHR ''?'', ClassChar CHR ''#'']) x"
    | (amp) "lang True (Chr CHR ''&'') x"
    | (esc) "lang True (Seq (Chr CHR ''&'') (Seq (Chr CHR ''a'') (Seq (Chr CHR ''m'')
            (Seq (Chr CHR ''p'') (Chr CHR '';''))))) x"
    unfolding separator_ast_def by (auto elim!: lang_GroupE lang_AltE)
  then show ?thesis
  proof cases
    case cls
    then show ?thesis by (auto elim!: lang_CharClassE simp: is_separator_def char_eq_fixed)
  next
    case amp
    then show ?thesis by (auto elim!: lang_ChrE simp: is_separator_def char_eq_fixed)
  next
    case esc
    then show ?thesis by (auto elim!: lang_SeqE lang_ChrE simp: is_separator_def)
  qed
qed

lemma lang_value:
  "lang ic rr w \<Longrightarrow> rr = Repeat (CharClass True [ClassChar CHR ''&'']) lo hi g \<Longrightarrow>
   CHR ''&'' \<notin> set w"
proof (induction rr w arbitrary: lo hi rule: lang.induct)
  case (lang_RepeatStep hi' r' u lo' greedy v)
  then have "CHR ''&'' \<notin> set v" by auto
  moreover from lang_RepeatStep have "lang ic (CharClass True [ClassChar CHR ''&'']) u" by simp
  then have "CHR ''&'' \<notin> set u" by (auto elim!: lang_CharClassE simp: char_eq_fixed)
  ultimately show ?case by simp
qed simp_all

section \<open>Claims\<close>

lemma total_spec_tools: "total_tools spec_tools"
  by (simp add: total_tools_def spec_tools_def spec_checkLocalURL_def spec_decodeURL_def Let_def)







text \<open>
  C3. For a provider whose URL pattern is set and whose enabled exceptions compile,
  \<^verbatim>\<open>matchURL\<close> returns true exactly when the URL pattern matches and no exception
  matches, the block-notice sentinel counting as an exception match; on the sentinel
  \<^verbatim>\<open>matchURL\<close> returns false whatever the exceptions are.
\<close>

theorem matchURL_exceptions:
  assumes "urlPattern p = Some pat"
  shows "(list_all compiles (enabled_exceptions p) \<longrightarrow>
          matchURL p u = Inr (test pat u \<and>
            \<not> (u = siteBlockedAlert
               \<or> (\<exists>e \<in> set (enabled_exceptions p). has_match e ''i'' u))))
       \<and> matchURL p siteBlockedAlert = Inr False"
proof -
  have "list_all compiles (own_keys (enabled_exceptions p))"
    if "list_all compiles (enabled_exceptions p)"
    using that by (simp add: list_all_iff set_own_keys)
  then show ?thesis
    using assms
    by (auto simp: matchURL_def matchException_def matchException_loop_result set_own_keys)
qed

text \<open>
  Witness: the provider \<^verbatim>\<open>shop\<close> has the exception \<^verbatim>\<open>shop/keep\<close>; its pattern
  matches both URLs, the exception matches the second.
\<close>

theorem matchURL_exceptions_witness:
  "urlPattern (example_provider ''shop'') \<noteq> None
   \<and> list_all compiles (enabled_exceptions (example_provider ''shop''))
   \<and> matchURL (example_provider ''shop'') ''http://shop/p'' = Inr True
   \<and> has_match ''shop/keep'' ''i'' ''http://shop/keep/p''
   \<and> matchURL (example_provider ''shop'') ''http://shop/keep/p'' = Inr False
   \<and> matchURL (example_provider ''shop'') siteBlockedAlert = Inr False"
proof -
  let ?p = "example_provider ''shop''"
  have h0: "urlPattern ?p \<noteq> None" by code_simp
  then obtain pat where pat: "urlPattern ?p = Some pat" by blast
  have h1: "list_all compiles (enabled_exceptions ?p)" by code_simp
  have ex: "enabled_exceptions ?p = [''shop/keep'']" by code_simp
  have m1: "has_match ''shop'' ''i'' ''http://shop/p''" by code_simp
  have m2: "has_match ''shop'' ''i'' ''http://shop/keep/p''" by code_simp
  have m3: "\<not> has_match ''shop/keep'' ''i'' ''http://shop/p''" by code_simp
  have m4: "has_match ''shop/keep'' ''i'' ''http://shop/keep/p''" by code_simp
  have up: "urlPattern ?p = (case RegExp ''shop'' ''i'' of Inl err \<Rightarrow> None | Inr re \<Rightarrow> Some re)"
    by code_simp
  have re: "RegExp ''shop'' ''i'' = Inr pat"
    using pat up by (cases "RegExp ''shop'' ''i''") auto
  have t1: "test pat ''http://shop/p''" and t2: "test pat ''http://shop/keep/p''"
    using m1 m2 re by (simp_all add: has_match_def test_def)
  have s: "''http://shop/p'' \<noteq> siteBlockedAlert" "''http://shop/keep/p'' \<noteq> siteBlockedAlert"
    by (simp_all add: siteBlockedAlert_def)
  from matchURL_exceptions [OF pat, of "''http://shop/p''"]
       matchURL_exceptions [OF pat, of "''http://shop/keep/p''"]
  show ?thesis using h0 h1 ex m3 m4 t1 t2 s by simp
qed

text \<open>
  C4 (as amended). For a field name \<open>r\<close> that has none of the characters that are
  operators in a pattern, \<^verbatim>\<open>addRule\<close> stores \<open>rule_pattern r\<close>, this text compiles,
  and every match that the matcher finds for it, at any position of any input, is made
  of one or more separators (\<^verbatim>\<open>/\<close>, \<^verbatim>\<open>?\<close>, \<^verbatim>\<open>#\<close>, \<^verbatim>\<open>&\<close>, \<^verbatim>\<open>&amp;\<close>), then the
  name \<open>r\<close> up to the case of its letters, then \<^verbatim>\<open>=\<close>, then characters other than
  \<^verbatim>\<open>&\<close>. The matches of \<^verbatim>\<open>test\<close>, \<^verbatim>\<open>exec\<close> and \<^verbatim>\<open>replace\<close> are matches of the
  matcher \<open>m\<close>.
\<close>

theorem addRule_separator_bounded:
  assumes "plain_name r"
  shows "rule_pattern r \<in> set (enabled_rules (addRule p r True))
    \<and> (\<exists>re. RegExp (rule_pattern r) ''gi'' = Inr re
         \<and> (\<forall>n s c e. e \<in> set (m (ignoreCase re) n (ast re) (s, c)) \<longrightarrow>
               (\<exists>seps r' val. s = seps @ r' @ ''='' @ val @ fst e \<and> separators seps
                  \<and> list_all2 (char_eq True) r r' \<and> CHR ''&'' \<notin> set val)))"
proof -
  let ?body = "mk_seq (map Chr r @
              [Chr CHR ''='', Repeat (CharClass True [ClassChar CHR ''&'']) 0 None True])"
  let ?re = "\<lparr>ast = Seq (Repeat separator_ast 1 None True) (Group 3 ?body),
         global = True, ignoreCase = True\<rparr>"
  have stored: "rule_pattern r \<in> set (enabled_rules (addRule p r True))"
    by (simp add: addRule_def applyRule_def obj_set_def obj_put_def rule_pattern_def)
  have re: "RegExp (rule_pattern r) ''gi'' = Inr ?re"
    by (rule rule_pattern_ast [OF assms])
  have main: "\<exists>seps r' val. s = seps @ r' @ ''='' @ val @ fst e \<and> separators seps
                  \<and> list_all2 (char_eq True) r r' \<and> CHR ''&'' \<notin> set val"
    if "e \<in> set (m (ignoreCase ?re) n (ast ?re) (s, c))" for n s c e
  proof -
    from that
    have "e \<in> set (m True n (Seq (Repeat separator_ast 1 None True) (Group 3 ?body)) (s, c))"
      by simp
    from m_sound [OF this] obtain w where s: "s = w @ fst e"
      and w: "lang True (Seq (Repeat separator_ast 1 None True) (Group 3 ?body)) w" by auto
    from w obtain u v where uv: "w = u @ v"
      and u: "lang True (Repeat separator_ast 1 None True) u"
      and v: "lang True ?body v"
      by (auto elim!: lang_SeqE lang_GroupE)
    from lang_Repeat_unbounded [OF u refl] obtain ws where
      ws: "1 \<le> length ws" "\<forall>x \<in> set ws. lang True separator_ast x" "u = concat ws" by blast
    then have seps: "separators u"
      unfolding separators_def
      by (intro exI [of _ ws]) (auto simp: list_all_iff lang_separator)
    from lang_mk_seq_chars [OF _ v] obtain r' v' where
      r': "v = r' @ v'" "list_all2 (char_eq True) r r'"
      and v': "lang True (mk_seq [Chr CHR ''='',
                 Repeat (CharClass True [ClassChar CHR ''&'']) 0 None True]) v'"
      by blast
    from v' obtain val where val: "v' = ''='' @ val"
      "lang True (Repeat (CharClass True [ClassChar CHR ''&'']) 0 None True) val"
      by (auto elim!: lang_SeqE lang_ChrE simp: char_eq_fixed)
    from lang_value [OF val(2) refl] have "CHR ''&'' \<notin> set val" .
    then show ?thesis
      using s uv seps r' val by (intro exI [of _ u] exI [of _ r'] exI [of _ val]) simp
  qed
  show ?thesis
    using stored re main by (intro conjI exI [of _ ?re]) blast+
qed

text \<open>
  Witness: the name \<^verbatim>\<open>ref\<close> and the field text \<^verbatim>\<open>?ref=1&k\<close>; the match found at the
  start ends before \<^verbatim>\<open>&k\<close>.
\<close>

theorem addRule_separator_bounded_witness:
  "plain_name ''ref''
   \<and> has_match (rule_pattern ''ref'') ''gi'' ''?ref=1&k''
   \<and> (\<exists>seps r' val. ''?ref=1&k'' = seps @ r' @ ''='' @ val @ ''&k'' \<and> separators seps
          \<and> list_all2 (char_eq True) ''ref'' r' \<and> CHR ''&'' \<notin> set val)"
proof -
  have h: "plain_name ''ref''" by code_simp
  have hm: "has_match (rule_pattern ''ref'') ''gi'' ''?ref=1&k''" by code_simp
  from addRule_separator_bounded [OF h, of "Provider ''p'' False False True"]
  obtain re where re: "RegExp (rule_pattern ''ref'') ''gi'' = Inr re"
    and all: "\<And>n s c e. e \<in> set (m (ignoreCase re) n (ast re) (s, c)) \<Longrightarrow>
               (\<exists>seps r' val. s = seps @ r' @ ''='' @ val @ fst e \<and> separators seps
                  \<and> list_all2 (char_eq True) ''ref'' r' \<and> CHR ''&'' \<notin> set val)"
    by blast
  have ev: "(case RegExp (rule_pattern ''ref'') ''gi'' of
              Inl err \<Rightarrow> False
            | Inr re \<Rightarrow> (case m (ignoreCase re) 8 (ast re) (''?ref=1&k'', []) of
                           [] \<Rightarrow> False
                         | e # es \<Rightarrow> fst e = ''&k''))"
    by code_simp
  then obtain e es where "m (ignoreCase re) 8 (ast re) (''?ref=1&k'', []) = e # es"
    and e: "fst e = ''&k''"
    using re by (auto split: list.splits)
  then have "e \<in> set (m (ignoreCase re) 8 (ast re) (''?ref=1&k'', []))" by simp
  from all [OF this] e show ?thesis using h hm by simp
qed

text \<open>
  Counterexample to C4 as stated: the field name \<^verbatim>\<open>a.b\<close>. In the stored pattern the
  dot stands for any character, so the pattern matches the token \<^verbatim>\<open>axb=1\<close>, in which
  the name does not occur, and \<^verbatim>\<open>removeFieldsFormURL\<close> removes that token.
\<close>

theorem addRule_dot_counterexample:
  "rule_pattern ''a.b'' \<in> set (enabled_rules (example_provider ''dotted''))
   \<and> CHR ''.'' \<notin> set ''?axb=1&k=2''
   \<and> has_match (rule_pattern ''a.b'') ''gi'' ''?axb=1&k=2''
   \<and> outcome (removeFieldsFormURL spec_tools example_storage (example_provider ''dotted'')
        ''http://dotted/p?axb=1&k=2'' False)
       = Inr \<lparr>changes = True, url = ''http://dotted/p?k=2'', redirect = False, cancel = False\<rparr>"
  by code_simp

text \<open>
  C5. \<^verbatim>\<open>clearUrl\<close> returns the pass-through action when the global flag is off, and
  also when the flag is on, the request is not a blocked ping and \<^verbatim>\<open>matchURL\<close>
  returns false for every provider of the registry. In both cases the registry is left
  as it was and the only effect is the report of the field count.
\<close>

theorem clearUrl_pass_through:
  "(\<not> globalStatus st \<longrightarrow>
      clearUrl T st prvs rq =
        Inr (PassThrough, prvs, [IncreaseGlobalURLCounter (countFields T (req_url rq))]))
   \<and> (globalStatus st \<and> \<not> (pingBlocking st \<and> req_type rq \<in> set (pingRequestTypes st))
        \<and> (\<forall>p \<in> set prvs. matchURL p (req_url rq) = Inr False) \<longrightarrow>
      clearUrl T st prvs rq =
        Inr (PassThrough, prvs, [IncreaseGlobalURLCounter (countFields T (req_url rq))]))"
  by (auto simp: clearUrl_def Let_def providers_loop_no_match)

text \<open>
  Witness: the same request with the flag off, and with the flag on and a registry of
  three providers none of which matches \<^verbatim>\<open>http://other/p?utm=a\<close>.
\<close>

theorem clearUrl_pass_through_witness:
  "\<not> globalStatus (example_storage\<lparr>globalStatus := False\<rparr>)
   \<and> clearUrl spec_tools (example_storage\<lparr>globalStatus := False\<rparr>)
        [example_provider ''shop'', example_provider ''dotted'', example_provider ''broken'']
        (example_request ''http://other/p?utm=a'')
       = Inr (PassThrough,
              [example_provider ''shop'', example_provider ''dotted'', example_provider ''broken''],
              [IncreaseGlobalURLCounter 1])
   \<and> globalStatus example_storage
   \<and> req_type (example_request ''http://other/p?utm=a'') \<notin> set (pingRequestTypes example_storage)
   \<and> list_all (\<lambda>p. matchURL p ''http://other/p?utm=a'' = Inr False)
        [example_provider ''shop'', example_provider ''dotted'', example_provider ''broken'']
   \<and> clearUrl spec_tools example_storage
        [example_provider ''shop'', example_provider ''dotted'', example_provider ''broken'']
        (example_request ''http://other/p?utm=a'')
       = Inr (PassThrough,
              [example_provider ''shop'', example_provider ''dotted'', example_provider ''broken''],
              [IncreaseGlobalURLCounter 1])"
proof -
  let ?ps = "[example_provider ''shop'', example_provider ''dotted'', example_provider ''broken'']"
  let ?rq = "example_request ''http://other/p?utm=a''"
  let ?off = "example_storage\<lparr>globalStatus := False\<rparr>"
  have a: "\<not> globalStatus ?off" by simp
  have b: "globalStatus example_storage" by (simp add: example_storage_def)
  have c: "req_type ?rq \<notin> set (pingRequestTypes example_storage)"
    by (simp add: example_storage_def example_request_def)
  have d: "list_all (\<lambda>p. matchURL p ''http://other/p?utm=a'' = Inr False) ?ps" by code_simp
  have n: "countFields spec_tools (req_url ?rq) = 1" by code_simp
  have u: "req_url ?rq = ''http://other/p?utm=a''" by (simp add: example_request_def)
  from clearUrl_pass_through [of ?off spec_tools ?ps ?rq]
       clearUrl_pass_through [of example_storage spec_tools ?ps ?rq]
  show ?thesis using a b c d n u by (simp add: list_all_iff)
qed




text \<open>
  C7 (as amended). \<^verbatim>\<open>clearUrl\<close> returns one of the three actions when every provider
  of the registry is well formed (its URL pattern is set and each of its enabled pattern
  texts compiles) and the helpers do not raise. The code catches no exception: a pattern
  that does not compile raises out of \<^verbatim>\<open>clearUrl\<close>, as the counterexample shows.
\<close>

theorem clearUrl_returns_action:
  assumes "list_all well_formed prvs" and "total_tools T"
  shows "\<exists>a prvs' ev. clearUrl T st prvs rq = Inr (a, prvs', ev)"
  using providers_loop_returns [OF assms]
  by (simp add: clearUrl_def Let_def)

theorem clearUrl_returns_action_witness:
  "list_all well_formed [example_provider ''shop'', example_provider ''dotted'']
   \<and> total_tools spec_tools
   \<and> (\<exists>a prvs' ev.
        clearUrl spec_tools example_storage
          [example_provider ''shop'', example_provider ''dotted'']
          (example_request ''http://shop/p?utm=a&k=1'') = Inr (a, prvs', ev))"
proof -
  have h: "list_all well_formed [example_provider ''shop'', example_provider ''dotted'']"
    by code_simp
  from clearUrl_returns_action [OF h total_spec_tools]
  show ?thesis using h total_spec_tools by blast
qed

text \<open>
  Counterexample to C7 as stated: the provider \<^verbatim>\<open>broken\<close> has the raw rule \<^verbatim>\<open>(\<close>,
  which is not a pattern. Its URL pattern matches the request, the raw-rule loop compiles
  the rule, and \<^verbatim>\<open>clearUrl\<close> raises a SyntaxError instead of returning \<^verbatim>\<open>{}\<close>.
\<close>

theorem clearUrl_raises_counterexample:
  "matchURL (example_provider ''broken'') ''http://broken/'' = Inr True
   \<and> getRawRules (example_provider ''broken'') = [''(''] \<and> RegExp ''('' ''gi'' = Inl SyntaxError
   \<and> clearUrl spec_tools example_storage [example_provider ''broken'']
        (example_request ''http://broken/'') = Inl SyntaxError"
  by code_simp

text \<open>
  C8 (the code at the failing input). The hash fetch is rejected, or returns a response
  that is not ok, or one whose body is blank. In the first case nothing runs; in the
  other two \<^verbatim>\<open>getHash\<close> only sets \<^verbatim>\<open>dataHash\<close> to false. No provider is built from
  the cached document (the registry stays empty) and no status is stored
  (\<^verbatim>\<open>hashStatus\<close> stays what it was, here nothing), where the branch for equal hashes
  builds the registry and stores a status.
\<close>

theorem failed_hash_fetch_builds_nothing:
  "getHash example_sha256 example_JSON_parse example_globals Rejected Rejected
     = (example_globals\<lparr>requests := [''https://r.example/hash'']\<rparr>, None)
   \<and> getHash example_sha256 example_JSON_parse example_globals (Response False ''abc'') Rejected
     = (example_globals\<lparr>requests := [''https://r.example/hash''], dataHash := HashFalse\<rparr>, None)
   \<and> getHash example_sha256 example_JSON_parse example_globals (Response True ''  '') Rejected
     = (example_globals\<lparr>requests := [''https://r.example/hash''], dataHash := HashFalse\<rparr>, None)
   \<and> providers (example_globals\<lparr>requests := [''https://r.example/hash''],
        dataHash := HashFalse\<rparr>) = []
   \<and> hashStatus (example_globals\<lparr>requests := [''https://r.example/hash''],
        dataHash := HashFalse\<rparr>) = None
   \<and> ClearURLsData example_globals = Document example_ruleset"
  by (simp add: getHash_def example_globals_def Let_def trim_def is_space_def char_code_def)

text \<open>
  C9 (the code at the failing input). For a URL whose fragment holds a \<^verbatim>\<open>?\<close>, the second
  assignment to \<^verbatim>\<open>domain\<close> starts again from the whole URL and cuts it at the
  \<^verbatim>\<open>?\<close>: the domain keeps \<^verbatim>\<open>#f\<close>, and the reassembled URL carries the fragment
  twice. With the \<^verbatim>\<open>?\<close> before the \<^verbatim>\<open>#\<close> the domain is the URL without both.
\<close>

theorem domain_keeps_fragment:
  "existsFragments spec_tools ''http://shop/p#f?x=1'' \<and> existsFields spec_tools ''http://shop/p#f?x=1''
   \<and> extract_domain spec_tools ''http://shop/p#f?x=1'' = Inr ''http://shop/p#f''
   \<and> extract_domain spec_tools ''http://shop/p?x=1#f'' = Inr ''http://shop/p''
   \<and> outcome (removeFieldsFormURL spec_tools example_storage (example_provider ''shop'')
        ''http://shop/p#f?x=1'' False)
       = Inr \<lparr>changes = False, url = ''http://shop/p#f?x=1#f?x=1'', redirect = False,
              cancel = False\<rparr>"
  by code_simp



end
